theory Spec2Isabelle
  imports Complex_Main "HOL-Library.Word"
begin

section \<open>Values and effects\<close>

text \<open>
  A C \<open>float\<close> is an IEEE binary32 value: NaN, one of the two infinities, or a finite
  value, held as the rational number it denotes (the two signed zeros are one value; the
  program never divides by zero nor prints a zero's sign bit). The result of an
  arithmetic operation is the exact result rounded to the nearest binary32 value, ties
  to even, with overflow to infinity and gradual underflow.
\<close>

datatype cfloat = NaN | PInf | NInf | Val rat

fun isnan :: "cfloat \<Rightarrow> bool" where
  "isnan NaN = True"
| "isnan _ = False"

definition pow2 :: "int \<Rightarrow> rat" where
  "pow2 k = (if 0 \<le> k then 2 ^ nat k else 1 / 2 ^ nat (- k))"

text \<open>The number of binary digits of a positive integer.\<close>

function bits :: "int \<Rightarrow> int" where
  "bits n = (if n \<le> 0 then 0 else 1 + bits (n div 2))"
  by pat_completeness auto
termination
  by (relation "measure nat") auto

declare bits.simps [simp del]

text \<open>For \<open>a > 0\<close>, the exponent \<open>k\<close> with \<open>2 ^ k \<le> a < 2 ^ (k + 1)\<close>.\<close>

definition ilog2 :: "rat \<Rightarrow> int" where
  "ilog2 a =
     (let (p, q) = quotient_of a;
          k = bits p - bits q
      in if pow2 k \<le> a then k else k - 1)"

text \<open>Rounding to the nearest integer, ties to the even one.\<close>

definition round_even :: "rat \<Rightarrow> int" where
  "round_even q =
     (let f = \<lfloor>q\<rfloor>; r = q - of_int f
      in if r < 1 / 2 then f
         else if 1 / 2 < r then f + 1
         else if even f then f else f + 1)"

text \<open>
  Rounding a rational to binary32: a 24-bit significand, the unit in the last place
  never below \<open>2 ^ (-149)\<close>, and a rounded magnitude of \<open>2 ^ 128\<close> or more is infinite.
\<close>

definition round32 :: "rat \<Rightarrow> cfloat" where
  "round32 x =
     (if x = 0 then Val 0
      else
        (let a = \<bar>x\<bar>;
             e = max (ilog2 a - 23) (- 149);
             m = round_even (a / pow2 e);
             v = of_int m * pow2 e
         in if pow2 128 \<le> v then (if x < 0 then NInf else PInf)
            else Val (if x < 0 then - v else v)))"

text \<open>\<open>x + y\<close> on floats.\<close>

fun fadd :: "cfloat \<Rightarrow> cfloat \<Rightarrow> cfloat" where
  "fadd NaN y = NaN"
| "fadd x NaN = NaN"
| "fadd PInf NInf = NaN"
| "fadd NInf PInf = NaN"
| "fadd PInf y = PInf"
| "fadd NInf y = NInf"
| "fadd x PInf = PInf"
| "fadd x NInf = NInf"
| "fadd (Val x) (Val y) = round32 (x + y)"

text \<open>\<open>x / y\<close> on floats.\<close>

fun fdiv :: "cfloat \<Rightarrow> cfloat \<Rightarrow> cfloat" where
  "fdiv NaN y = NaN"
| "fdiv x NaN = NaN"
| "fdiv (Val x) (Val y) =
     (if y = 0 then (if x = 0 then NaN else if 0 < x then PInf else NInf)
      else round32 (x / y))"
| "fdiv (Val x) y = Val 0"
| "fdiv PInf (Val y) = (if y < 0 then NInf else PInf)"
| "fdiv NInf (Val y) = (if y < 0 then PInf else NInf)"
| "fdiv x y = NaN"

text \<open>The conversion of a \<open>size_t\<close> to \<open>float\<close>.\<close>

definition float_of_nat :: "nat \<Rightarrow> cfloat" where
  "float_of_nat n = round32 (of_nat n)"

text \<open>
  Everything the program does to the outside world is an event; a function returns the
  events it caused, in order. \<open>unsigned long\<close> is 32 bits wide on the ESP8266.
\<close>

type_synonym ulong = "32 word"

datatype event =
    SerialBegin nat
  | SerialOut string
  | WireBegin
  | BmeBegin "8 word"
  | WiFiBegin string string
  | Delay nat
  | HttpBegin string
  | HttpAddHeader string string
  | HttpPost string
  | HttpEnd

definition println :: "string \<Rightarrow> event" where
  "println s = SerialOut (s @ [CHR 0x0D, CHR 0x0A])"

section \<open>BME280Sensor\<close>

text \<open>
  \<open>SAMPLE_SIZE\<close> comes from \<open>main.h\<close>; it is the parameter \<open>N\<close> of every sensor
  operation. The three \<open>std::array<float, SAMPLE_SIZE>\<close> are lists of length \<open>N\<close>.
\<close>

record BME280Sensor =
  addr :: "8 word"
  tempBuffer :: "cfloat list"
  humBuffer :: "cfloat list"
  presBuffer :: "cfloat list"
  index :: nat
  filled :: bool

definition BME280Sensor_new :: "nat \<Rightarrow> BME280Sensor" where
  "BME280Sensor_new N =
     \<lparr>addr = 0x76,
      tempBuffer = replicate N (Val 0),
      humBuffer = replicate N (Val 0),
      presBuffer = replicate N (Val 0),
      index = 0,
      filled = False\<rparr>"

text \<open>\<open>begin\<close>: the two booleans are what \<open>bme.begin\<close> answers at 0x76 and at 0x77.\<close>

definition BME280Sensor_begin ::
  "bool \<Rightarrow> bool \<Rightarrow> BME280Sensor \<Rightarrow> event list \<times> BME280Sensor \<times> bool" where
  "BME280Sensor_begin ok1 ok2 s =
     (if \<not> ok1 then
        (let s' = s\<lparr>addr := 0x77\<rparr> in
         if \<not> ok2 then ([BmeBegin (addr s), BmeBegin 0x77], s', False)
         else ([BmeBegin (addr s), BmeBegin 0x77], s', True))
      else ([BmeBegin (addr s)], s, True))"

text \<open>
  \<open>update\<close>: \<open>t\<close>, \<open>h\<close> and \<open>praw\<close> are what \<open>readTemperature\<close>, \<open>readHumidity\<close> and
  \<open>readPressure\<close> return.
\<close>

definition BME280Sensor_update ::
  "nat \<Rightarrow> cfloat \<Rightarrow> cfloat \<Rightarrow> cfloat \<Rightarrow> BME280Sensor \<Rightarrow> event list \<times> BME280Sensor" where
  "BME280Sensor_update N t h praw s =
     (let p = fdiv praw (Val 100) in
      if isnan t \<or> isnan h \<or> isnan p then
        ([println ''Sensor read failed, skipping sample...''], s)
      else
        (let s1 = s\<lparr>tempBuffer := (tempBuffer s)[index s := t],
                     humBuffer := (humBuffer s)[index s := h],
                     presBuffer := (presBuffer s)[index s := p]\<rparr>;
             s2 = s1\<lparr>index := (index s1 + 1) mod N\<rparr>
         in ([], if index s2 = 0 then s2\<lparr>filled := True\<rparr> else s2)))"

definition count_of :: "nat \<Rightarrow> BME280Sensor \<Rightarrow> nat" where
  "count_of N s = (if filled s then N else index s)"

text \<open>\<open>average\<close>: the loop \<open>for (i = 0; i < count; i++) sum += buffer[i]\<close> is the fold.\<close>

definition average :: "nat \<Rightarrow> BME280Sensor \<Rightarrow> cfloat list \<Rightarrow> cfloat" where
  "average N s buffer =
     (let count = count_of N s in
      if count = 0 then NaN
      else fdiv (fold (\<lambda>i sum. fadd sum (buffer ! i)) [0..<count] (Val 0))
             (float_of_nat count))"

definition getAverageTemperature :: "nat \<Rightarrow> BME280Sensor \<Rightarrow> cfloat" where
  "getAverageTemperature N s = average N s (tempBuffer s)"

definition getAverageHumidity :: "nat \<Rightarrow> BME280Sensor \<Rightarrow> cfloat" where
  "getAverageHumidity N s = average N s (humBuffer s)"

definition getAveragePressure :: "nat \<Rightarrow> BME280Sensor \<Rightarrow> cfloat" where
  "getAveragePressure N s = average N s (presBuffer s)"

text \<open>A run of \<open>update\<close> calls, one per reading \<open>(t, h, praw)\<close>, oldest first.\<close>

fun ingest_all :: "nat \<Rightarrow> (cfloat \<times> cfloat \<times> cfloat) list \<Rightarrow> BME280Sensor \<Rightarrow> BME280Sensor" where
  "ingest_all N [] s = s"
| "ingest_all N ((t, h, praw) # rs) s = ingest_all N rs (snd (BME280Sensor_update N t h praw s))"

section \<open>WiFiManager\<close>

text \<open>
  \<open>millis()\<close> is the number of milliseconds since boot, truncated to 32 bits. The
  environment supplies the untruncated clock as a \<open>nat\<close>.
\<close>

definition millis :: "nat \<Rightarrow> ulong" where
  "millis t = word_of_nat t"

record WiFiManager =
  ssid :: string
  pass :: string
  timeout :: ulong
  lastAttempt :: ulong

definition WiFiManager_new :: "string \<Rightarrow> string \<Rightarrow> ulong \<Rightarrow> WiFiManager" where
  "WiFiManager_new s p tmo = \<lparr>ssid = s, pass = p, timeout = tmo, lastAttempt = 0\<rparr>"

text \<open>
  One evaluation of the wait loop's condition
  \<open>WiFi.status() != WL_CONNECTED && millis() - start < timeout\<close>: either the link
  is up (\<open>millis\<close> is not read), or it is down and the clock shows the given time.
\<close>

datatype poll = Up | Down nat

text \<open>
  What the radio and the clock answer during one call of \<open>update\<close>: the link status
  at entry, the clock when \<open>now\<close> and \<open>start\<close> are read, the evaluations of the loop
  condition, the status after the loop, and the local address.
\<close>

record wifi_env =
  connected_at_entry :: bool
  now_ms :: nat
  start_ms :: nat
  polls :: "poll list"
  connected_after :: bool
  local_ip :: string

text \<open>
  The wait loop. It returns its events and whether it was left; when the environment's
  answers run out the loop is still waiting, and the flag is \<open>False\<close>.
\<close>

fun wait_loop :: "ulong \<Rightarrow> ulong \<Rightarrow> poll list \<Rightarrow> event list \<times> bool" where
  "wait_loop start tmo [] = ([], False)"
| "wait_loop start tmo (Up # ps) = ([], True)"
| "wait_loop start tmo (Down t # ps) =
     (if millis t - start < tmo then
        (let (evs, left) = wait_loop start tmo ps
         in (Delay 200 # SerialOut ''.'' # evs, left))
      else ([], True))"

text \<open>\<open>update\<close> of \<open>src/main.cpp\<close>. The last component tells whether the call returned.\<close>

definition WiFiManager_update ::
  "wifi_env \<Rightarrow> WiFiManager \<Rightarrow> event list \<times> WiFiManager \<times> bool" where
  "WiFiManager_update e m =
     (if connected_at_entry e then ([], m, True)
      else
        (let now = millis (now_ms e) in
         if now - lastAttempt m < timeout m then ([], m, True)
         else
           (let m' = m\<lparr>lastAttempt := now\<rparr>;
                banner = [SerialOut (''Connecting to Wi-Fi: '' @ ssid m @ ''\<newline>''),
                          WiFiBegin (ssid m) (pass m)];
                start = millis (start_ms e);
                (dots, left) = wait_loop start (timeout m) (polls e)
            in if \<not> left then (banner @ dots, m', False)
               else if connected_after e then
                 (banner @ dots @
                    [println ''\<newline>Wi-Fi Connected!'',
                     SerialOut (''IP Address: '' @ local_ip e @ ''\<newline>'')], m', True)
               else
                 (banner @ dots @
                    [println ''\<newline>Wi-Fi connection failed, will retry...''], m', True))))"

text \<open>\<open>update\<close> of the revision \<open>src/unnamed/part_000\<close>.\<close>

definition WiFiManager_update_part_000 ::
  "wifi_env \<Rightarrow> WiFiManager \<Rightarrow> event list \<times> WiFiManager \<times> bool" where
  "WiFiManager_update_part_000 e m =
     (if connected_at_entry e then ([], m, True)
      else
        (let now = millis (now_ms e) in
         if now - lastAttempt m < timeout m then ([], m, True)
         else
           (let m' = m\<lparr>lastAttempt := now\<rparr>;
                banner = [SerialOut (''Connecting to Wi-Fi: '' @ ssid m @ ''\<newline>''),
                          SerialOut (pass m @ ''\<newline>''),
                          WiFiBegin (ssid m) (pass m)];
                start = millis (start_ms e);
                (dots, left) = wait_loop start (timeout m) (polls e)
            in if \<not> left then (banner @ dots, m', False)
               else if connected_after e then
                 (banner @ dots @
                    [println ''\<newline>Wi-Fi Connected!'',
                     SerialOut (''IP Address: '' @ local_ip e @ ''\<newline>'')], m', True)
               else
                 (banner @ dots @
                    [println ''\<newline>Wi-Fi connection failed, will retry...''], m', True))))"

section \<open>DataSender\<close>

fun dec_nat :: "nat \<Rightarrow> string" where
  "dec_nat n =
     (if n < 10 then [char_of (48 + n)]
      else dec_nat (n div 10) @ [char_of (48 + n mod 10)])"

declare dec_nat.simps [simp del]

text \<open>\<open>printf("%d", code)\<close>.\<close>

definition dec_int :: "int \<Rightarrow> string" where
  "dec_int i = (if i < 0 then ''-'' @ dec_nat (nat (- i)) else dec_nat (nat i))"

definition zero_pad :: "nat \<Rightarrow> string \<Rightarrow> string" where
  "zero_pad w s = replicate (w - length s) CHR ''0'' @ s"

text \<open>Modelled from the spec: \<open>String(float value, unsigned char decimalPlaces)\<close> belongs
  to the Arduino core, not to the repository. The spec asks for each value "formatted to
  2 decimal digits"; the core's conversion adds half a unit of the last place to the
  magnitude and truncates, and prints NaN as \<open>nan\<close> and an infinity as \<open>inf\<close>.
\<close>

definition String_float :: "cfloat \<Rightarrow> nat \<Rightarrow> string" where
  "String_float v prec =
     (case v of
        NaN \<Rightarrow> ''nan''
      | PInf \<Rightarrow> ''inf''
      | NInf \<Rightarrow> ''inf''
      | Val x \<Rightarrow>
          (let a = \<bar>x\<bar> + 1 / (2 * 10 ^ prec);
               ip = nat \<lfloor>a\<rfloor>;
               fr = nat \<lfloor>(a - of_nat ip) * 10 ^ prec\<rfloor>
           in (if x < 0 then ''-'' else []) @ dec_nat ip @
              (if prec = 0 then [] else ''.'' @ zero_pad prec (dec_nat fr))))"

record DataSender =
  serverUrl :: string
  endpoint :: string
  apiKey :: string

definition DataSender_new :: "string \<Rightarrow> string \<Rightarrow> string \<Rightarrow> DataSender" where
  "DataSender_new u p k = \<lparr>serverUrl = u, endpoint = p, apiKey = k\<rparr>"

text \<open>
  What the radio and the HTTP client answer during one call of \<open>send\<close>: the link
  status, the value \<open>http.POST\<close> returns and the text \<open>http.errorToString\<close> gives
  for it.
\<close>

record send_env =
  link_up :: bool
  post_code :: int
  error_text :: string

text \<open>The payload, lines 121 to 127.\<close>

definition payload_of :: "DataSender \<Rightarrow> cfloat \<Rightarrow> cfloat \<Rightarrow> cfloat \<Rightarrow> string" where
  "payload_of d temperature humidity pressure =
     (let payload = ''{'';
          payload = payload @ (''\"api_key\":\"'' @ apiKey d @ ''\",'');
          payload = payload @ ''\"content\":{'';
          payload = payload @ (''\"temperature\":'' @ String_float temperature 2 @ '','');
          payload = payload @ (''\"humidity\":'' @ String_float humidity 2 @ '','');
          payload = payload @ (''\"pressure\":'' @ String_float pressure 2);
          payload = payload @ ''}}''
      in payload)"

definition DataSender_send ::
  "DataSender \<Rightarrow> cfloat \<Rightarrow> cfloat \<Rightarrow> cfloat \<Rightarrow> send_env \<Rightarrow> event list" where
  "DataSender_send d temperature humidity pressure e =
     (if \<not> link_up e then [println ''Wi-Fi disconnected, cannot send data.'']
      else
        (let url = serverUrl d @ endpoint d;
             payload = payload_of d temperature humidity pressure;
             code = post_code e
         in [HttpBegin url,
             HttpAddHeader ''Content-Type'' ''application/json'',
             HttpPost payload,
             (if code > 0 then SerialOut (''Data sent! HTTP code: '' @ dec_int code @ ''\<newline>'')
              else SerialOut (''Failed to send data: '' @ error_text e @ ''\<newline>'')),
             HttpEnd]))"

section \<open>Globals, setup and loop\<close>

text \<open>The macros of \<open>main.h\<close>, which is not among the sources, are parameters.\<close>

record config =
  WIFI_SSID :: string
  WIFI_PASS :: string
  WIFI_TIMEOUT_MS :: ulong
  SERVER_URL :: string
  ENDPOINT :: string
  API_KEY :: string
  SAMPLE_SIZE :: nat
  INTERVAL_MS :: ulong

record globals =
  wifiManager :: WiFiManager
  sensor :: BME280Sensor
  sender :: DataSender
  lastSend :: ulong

definition globals_new :: "config \<Rightarrow> globals" where
  "globals_new cfg =
     \<lparr>wifiManager = WiFiManager_new (WIFI_SSID cfg) (WIFI_PASS cfg) (WIFI_TIMEOUT_MS cfg),
      sensor = BME280Sensor_new (SAMPLE_SIZE cfg),
      sender = DataSender_new (SERVER_URL cfg) (ENDPOINT cfg) (API_KEY cfg),
      lastSend = 0\<rparr>"

record setup_env =
  bme_at_0x76 :: bool
  bme_at_0x77 :: bool
  setup_wifi :: wifi_env

text \<open>
  \<open>setup\<close>. The flag is \<open>False\<close> when \<open>setup\<close> does not return: in
  \<open>while (1) delay(1000)\<close> after a failed sensor start, or in a wait loop that has
  not been left.
\<close>

definition setup_fn :: "setup_env \<Rightarrow> globals \<Rightarrow> event list \<times> globals \<times> bool" where
  "setup_fn e g =
     (let (ev_begin, sn, found) = BME280Sensor_begin (bme_at_0x76 e) (bme_at_0x77 e) (sensor g);
          g1 = g\<lparr>sensor := sn\<rparr>
      in if \<not> found then
           ([SerialBegin 115200, WireBegin] @ ev_begin @
              [println ''BME280 sensor not found. Check wiring!''], g1, False)
         else
           (let (ev_wifi, wm, returned) = WiFiManager_update (setup_wifi e) (wifiManager g1)
            in ([SerialBegin 115200, WireBegin] @ ev_begin @ ev_wifi,
                g1\<lparr>wifiManager := wm\<rparr>, returned)))"

record loop_env =
  loop_wifi :: wifi_env
  link_connected :: bool
  temperature_read :: cfloat
  humidity_read :: cfloat
  pressure_read :: cfloat
  loop_now_ms :: nat
  loop_send :: send_env

text \<open>Lines 180 to 185 of \<open>loop\<close>: the guard on the three averages and the send.\<close>

definition loop_report ::
  "DataSender \<Rightarrow> cfloat \<Rightarrow> cfloat \<Rightarrow> cfloat \<Rightarrow> send_env \<Rightarrow> event list" where
  "loop_report d temp hum pres e =
     (if isnan temp \<or> isnan hum \<or> isnan pres then
        [println ''Skipping send due to invalid sensor averages.'']
      else DataSender_send d temp hum pres e)"

definition loop :: "config \<Rightarrow> loop_env \<Rightarrow> globals \<Rightarrow> event list \<times> globals \<times> bool" where
  "loop cfg e g =
     (let (ev_wifi, wm, returned) = WiFiManager_update (loop_wifi e) (wifiManager g);
          g1 = g\<lparr>wifiManager := wm\<rparr>
      in if \<not> returned then (ev_wifi, g1, False)
         else if \<not> link_connected e then (ev_wifi, g1, True)
         else
           (let (ev_sensor, sn) =
                  BME280Sensor_update (SAMPLE_SIZE cfg) (temperature_read e) (humidity_read e)
                    (pressure_read e) (sensor g1);
                g2 = g1\<lparr>sensor := sn\<rparr>;
                now = millis (loop_now_ms e)
            in if now - lastSend g2 \<ge> INTERVAL_MS cfg then
                 (let g3 = g2\<lparr>lastSend := now\<rparr>;
                      temp = getAverageTemperature (SAMPLE_SIZE cfg) (sensor g3);
                      hum = getAverageHumidity (SAMPLE_SIZE cfg) (sensor g3);
                      pres = getAveragePressure (SAMPLE_SIZE cfg) (sensor g3)
                  in (ev_wifi @ ev_sensor @ loop_report (sender g3) temp hum pres (loop_send e),
                      g3, True))
               else (ev_wifi @ ev_sensor, g2, True)))"

section \<open>Observations on event traces\<close>

fun is_transport :: "event \<Rightarrow> bool" where
  "is_transport (HttpBegin u) = True"
| "is_transport (HttpAddHeader k v) = True"
| "is_transport (HttpPost b) = True"
| "is_transport HttpEnd = True"
| "is_transport _ = False"

definition transport_calls :: "event list \<Rightarrow> nat" where
  "transport_calls evs = length (filter is_transport evs)"

fun is_connect :: "event \<Rightarrow> bool" where
  "is_connect (WiFiBegin s p) = True"
| "is_connect _ = False"

definition connect_requests :: "event list \<Rightarrow> nat" where
  "connect_requests evs = length (filter is_connect evs)"

text \<open>The bytes written to the serial port.\<close>

fun serial_output :: "event list \<Rightarrow> string" where
  "serial_output [] = []"
| "serial_output (SerialOut s # evs) = s @ serial_output evs"
| "serial_output (_ # evs) = serial_output evs"

definition skip_line :: event where
  "skip_line = println ''Skipping send due to invalid sensor averages.''"

text \<open>The condition under which \<open>update\<close> issues a connect request.\<close>

definition gate_open :: "wifi_env \<Rightarrow> WiFiManager \<Rightarrow> bool" where
  "gate_open e m =
     (\<not> connected_at_entry e \<and> \<not> millis (now_ms e) - lastAttempt m < timeout m)"

text \<open>
  Successive calls of \<open>update\<close>, one per environment, each on the manager the previous
  call left; the run ends with a call that does not return. Each entry holds the call's
  environment, its events and the manager after it.
\<close>

fun update_calls :: "wifi_env list \<Rightarrow> WiFiManager \<Rightarrow> (wifi_env \<times> event list \<times> WiFiManager) list" where
  "update_calls [] m = []"
| "update_calls (e # es) m =
     (case WiFiManager_update e m of
        (evs, m', returned) \<Rightarrow> (e, evs, m') # (if returned then update_calls es m' else []))"

definition attempted :: "wifi_env \<times> event list \<times> WiFiManager \<Rightarrow> bool" where
  "attempted c = (0 < connect_requests (fst (snd c)))"

definition attempt_times :: "wifi_env list \<Rightarrow> WiFiManager \<Rightarrow> nat list" where
  "attempt_times es m = map (\<lambda>c. now_ms (fst c)) (filter attempted (update_calls es m))"

section \<open>Example configuration and environments\<close>

definition example_config :: config where
  "example_config =
     \<lparr>WIFI_SSID = ''net'', WIFI_PASS = ''secret'', WIFI_TIMEOUT_MS = 10000,
      SERVER_URL = ''http://example.org'', ENDPOINT = ''/api'', API_KEY = ''abc'',
      SAMPLE_SIZE = 3, INTERVAL_MS = 60000\<rparr>"

text \<open>A call of \<open>update\<close> at time \<open>t\<close> that finds the link up.\<close>

definition linked :: "nat \<Rightarrow> wifi_env" where
  "linked t =
     \<lparr>connected_at_entry = True, now_ms = t, start_ms = t, polls = [],
      connected_after = True, local_ip = []\<rparr>"

text \<open>
  A tick at time \<open>t\<close> with the link up throughout, the three sensor readings given and
  \<open>http.POST\<close> returning \<open>code\<close>.
\<close>

definition example_tick :: "nat \<Rightarrow> cfloat \<Rightarrow> cfloat \<Rightarrow> cfloat \<Rightarrow> int \<Rightarrow> loop_env" where
  "example_tick t tr hr pr code =
     \<lparr>loop_wifi = linked t, link_connected = True,
      temperature_read = tr, humidity_read = hr, pressure_read = pr,
      loop_now_ms = t,
      loop_send = \<lparr>link_up = True, post_code = code, error_text = ''connection refused''\<rparr>\<rparr>"

section \<open>Shape of a formatted number\<close>

definition is_digit :: "char \<Rightarrow> bool" where
  "is_digit c = (48 \<le> (of_char c :: nat) \<and> (of_char c :: nat) \<le> 57)"

text \<open>
  The text ends in a decimal point followed by exactly two digits, and has no other
  decimal point.
\<close>

definition two_decimals :: "string \<Rightarrow> bool" where
  "two_decimals s =
     (case rev s of
        d2 # d1 # dot # body \<Rightarrow>
          is_digit d2 \<and> is_digit d1 \<and> dot = CHR ''.'' \<and> CHR ''.'' \<notin> set body \<and> body \<noteq> []
      | _ \<Rightarrow> False)"

section \<open>The sample window\<close>

text \<open>The exact arithmetic mean of rationals.\<close>

definition mean :: "rat list \<Rightarrow> rat" where
  "mean xs = sum_list xs / of_nat (length xs)"

text \<open>
  The mean as \<open>average\<close> computes it in binary32: the values are added from left to
  right to \<open>0.0f\<close>, each addition rounded, and the sum is divided by the count, rounded
  once more.
\<close>

definition fmean :: "cfloat list \<Rightarrow> cfloat" where
  "fmean xs = fdiv (foldl fadd (Val 0) xs) (float_of_nat (length xs))"

text \<open>No addition of the running sum \<open>a\<close> and the values \<open>xs\<close> is changed by rounding.\<close>

fun exact_sums :: "rat \<Rightarrow> rat list \<Rightarrow> bool" where
  "exact_sums a [] = True"
| "exact_sums a (x # xs) = (round32 (a + x) = Val (a + x) \<and> exact_sums (a + x) xs)"

text \<open>A reading that is valid on all three channels.\<close>

definition valid_reading :: "cfloat \<times> cfloat \<times> cfloat \<Rightarrow> bool" where
  "valid_reading r = (case r of (t, h, praw) \<Rightarrow> \<not> isnan t \<and> \<not> isnan h \<and> \<not> isnan praw)"

text \<open>Finite readings, given by their values.\<close>

definition valid_readings :: "(rat \<times> rat \<times> rat) list \<Rightarrow> (cfloat \<times> cfloat \<times> cfloat) list" where
  "valid_readings vs = map (\<lambda>(t, h, praw). (Val t, Val h, Val praw)) vs"

text \<open>
  The buffer holds the values \<open>xs\<close> written so far: each of the last \<open>N\<close> of them is
  in the slot its position selects.
\<close>

definition window_inv :: "nat \<Rightarrow> cfloat list \<Rightarrow> cfloat list \<Rightarrow> bool" where
  "window_inv N buf xs =
     (length buf = N \<and>
      (\<forall>j < length xs. length xs \<le> j + N \<longrightarrow> buf ! (j mod N) = xs ! j))"

definition sensor_inv :: "nat \<Rightarrow> BME280Sensor \<Rightarrow> bool" where
  "sensor_inv N s =
     (index s < N \<and> length (tempBuffer s) = N \<and> length (humBuffer s) = N \<and>
      length (presBuffer s) = N)"

section \<open>Properties of the float operations\<close>

lemma round32_not_nan [simp]: "\<not> isnan (round32 x)"
  by (simp add: round32_def Let_def)

lemma isnan_fdiv_const: "y \<noteq> 0 \<Longrightarrow> isnan (fdiv x (Val y)) = isnan x"
  by (cases x) simp_all

lemma foldl_fadd_exact:
  "exact_sums a xs \<Longrightarrow> foldl fadd (Val a) (map Val xs) = Val (a + sum_list xs)"
proof (induction xs arbitrary: a)
  case Nil
  then show ?case by simp
next
  case (Cons x xs)
  then show ?case by (simp add: add.assoc)
qed

text \<open>Where no step rounds, the binary32 mean is the arithmetic mean.\<close>

lemma fmean_exact:
  assumes "exact_sums 0 xs" and "xs \<noteq> []"
    and "float_of_nat (length xs) = Val (of_nat (length xs))"
    and "round32 (mean xs) = Val (mean xs)"
  shows "fmean (map Val xs) = Val (mean xs)"
proof -
  have "foldl fadd (Val 0) (map Val xs) = Val (sum_list xs)"
    using foldl_fadd_exact [OF assms(1)] by simp
  moreover have "(of_nat (length xs) :: rat) \<noteq> 0" using assms(2) by simp
  ultimately show ?thesis using assms(3,4) by (simp add: fmean_def mean_def)
qed

section \<open>Properties of the sample window\<close>

lemma window_inv_new: "window_inv N (replicate N (Val 0)) []"
  by (simp add: window_inv_def)

lemma mod_distinct_close:
  fixes j k :: nat
  assumes "j < k" "k < j + N"
  shows "j mod N \<noteq> k mod N"
proof
  assume eq: "j mod N = k mod N"
  then have "(k - j) mod N = 0"
    using assms(1) by (metis mod_eq_dvd_iff_nat less_imp_le_nat dvd_imp_mod_0)
  moreover have "0 < k - j" "k - j < N" using assms by auto
  ultimately show False by simp
qed

lemma window_inv_step:
  assumes "window_inv N buf xs" "0 < N"
  shows "window_inv N (buf[length xs mod N := x]) (xs @ [x])"
  unfolding window_inv_def
proof (intro conjI allI impI)
  show "length (buf[length xs mod N := x]) = N"
    using assms by (simp add: window_inv_def)
next
  fix j assume j: "j < length (xs @ [x])" "length (xs @ [x]) \<le> j + N"
  have len: "length buf = N" using assms by (simp add: window_inv_def)
  show "buf[length xs mod N := x] ! (j mod N) = (xs @ [x]) ! j"
  proof (cases "j = length xs")
    case True
    then show ?thesis using len assms(2) by simp
  next
    case False
    then have jl: "j < length xs" using j by simp
    have "length xs < j + N" using j by simp
    then have ne: "j mod N \<noteq> length xs mod N" using jl mod_distinct_close by blast
    have "buf ! (j mod N) = xs ! j"
      using assms(1) jl j(2) by (simp add: window_inv_def)
    then show ?thesis using ne jl by (simp add: nth_append)
  qed
qed

text \<open>The summation loop of \<open>average\<close> adds the first \<open>c\<close> slots from left to right.\<close>

lemma fold_slots:
  "c \<le> length buf \<Longrightarrow>
   fold (\<lambda>i sum. fadd sum (buf ! i)) [0..<c] a = foldl fadd a (take c buf)"
proof (induction c)
  case 0
  then show ?case by simp
next
  case (Suc c)
  then have "take (Suc c) buf = take c buf @ [buf ! c]"
    by (simp add: take_Suc_conv_app_nth)
  then show ?case using Suc by simp
qed

text \<open>Before the first wrap the written slots are the values in order of arrival.\<close>

lemma window_partial:
  assumes "window_inv N buf xs" "length xs < N"
  shows "take (length xs) buf = xs"
proof (rule nth_equalityI)
  show "length (take (length xs) buf) = length xs"
    using assms by (simp add: window_inv_def)
next
  fix i assume "i < length (take (length xs) buf)"
  then have i: "i < length xs" by simp
  then have "buf ! (i mod N) = xs ! i" using assms by (simp add: window_inv_def)
  then show "take (length xs) buf ! i = xs ! i" using i assms(2) by simp
qed

text \<open>
  After the first wrap the buffer is the last \<open>N\<close> values, rotated so that the oldest
  of them is in the slot the cursor points to.
\<close>

lemma window_full:
  assumes "window_inv N buf xs" "N \<le> length xs" "0 < N"
  shows "buf = rotate (N - length xs mod N) (drop (length xs - N) xs)"
proof (rule nth_equalityI)
  show "length buf = length (rotate (N - length xs mod N) (drop (length xs - N) xs))"
    using assms by (simp add: window_inv_def)
next
  fix n assume "n < length buf"
  then have n: "n < N" using assms by (simp add: window_inv_def)
  let ?k = "length xs"
  let ?i = "?k mod N"
  let ?w = "drop (?k - N) xs"
  let ?d = "(N - ?i + n) mod N"
  have lw: "length ?w = N" using assms by simp
  have dN: "?d < N" using assms(3) by simp
  have il: "?i < N" using assms(3) by simp
  have "rotate (N - ?i) ?w ! n = ?w ! ?d"
    using n lw by (simp add: nth_rotate)
  also have "\<dots> = xs ! (?k - N + ?d)" using dN assms(2) by simp
  also have "\<dots> = buf ! ((?k - N + ?d) mod N)"
  proof -
    have "?k - N + ?d < ?k" "?k \<le> ?k - N + ?d + N" using dN assms(2) by linarith+
    moreover have "\<forall>j < ?k. ?k \<le> j + N \<longrightarrow> buf ! (j mod N) = xs ! j"
      using assms(1) by (simp add: window_inv_def)
    ultimately show ?thesis by metis
  qed
  also have "(?k - N + ?d) mod N = n"
  proof -
    have "(?k - N + ?d) mod N = ((?k - N) mod N + (N - ?i + n)) mod N"
      by (metis mod_add_eq mod_mod_trivial)
    also have "(?k - N) mod N = ?i" using assms(2) by (simp add: le_mod_geq)
    also have "?i + (N - ?i + n) = N + n" using il by simp
    also have "(N + n) mod N = n" using n by simp
    finally show ?thesis .
  qed
  finally show "buf ! n = rotate (N - ?i) ?w ! n" by simp
qed

lemma average_window:
  assumes "0 < N" "index s = length xs mod N" "filled s = (N \<le> length xs)"
    and "window_inv N buf xs"
  shows "average N s buf =
           (if xs = [] then NaN
            else if length xs \<le> N then fmean xs
            else fmean (rotate (N - length xs mod N) (drop (length xs - N) xs)))"
proof (cases "N \<le> length xs")
  case True
  then have cnt: "count_of N s = N" using assms by (simp add: count_of_def)
  have ne: "xs \<noteq> []" using True assms(1) by auto
  have len: "length buf = N" using assms(4) by (simp add: window_inv_def)
  have buf: "buf = rotate (N - length xs mod N) (drop (length xs - N) xs)"
    using assms(4) True assms(1) by (rule window_full)
  have av: "average N s buf = fmean buf"
    using cnt assms(1) len fold_slots [of N buf "Val 0"]
    by (simp add: average_def fmean_def)
  show ?thesis
  proof (cases "length xs = N")
    case True
    then have "buf = xs" using buf by simp
    then show ?thesis using av ne True by simp
  next
    case False
    then have "N < length xs" using True by simp
    then show ?thesis using av buf ne by simp
  qed
next
  case False
  then have lt: "length xs < N" by simp
  then have cnt: "count_of N s = length xs" using assms by (simp add: count_of_def)
  have len: "length buf = N" using assms(4) by (simp add: window_inv_def)
  have tk: "take (length xs) buf = xs" using assms(4) lt by (rule window_partial)
  show ?thesis
    using cnt lt len tk fold_slots [of "length xs" buf "Val 0"]
    by (simp add: average_def fmean_def)
qed

lemma ingest_all_snoc:
  "ingest_all N (rs @ [(t, h, praw)]) s
   = snd (BME280Sensor_update N t h praw (ingest_all N rs s))"
  by (induction rs arbitrary: s) auto

lemma wrap_filled:
  fixes N k :: nat
  assumes "0 < N"
  shows "(N \<le> Suc k) = (N \<le> k \<or> Suc k mod N = 0)"
proof (cases "N \<le> k")
  case True
  then show ?thesis by simp
next
  case False
  show ?thesis
  proof
    assume "N \<le> Suc k"
    then have "N = Suc k" using False by simp
    then show "N \<le> k \<or> Suc k mod N = 0" by simp
  next
    assume "N \<le> k \<or> Suc k mod N = 0"
    then have "N dvd Suc k" using False by auto
    then show "N \<le> Suc k" by (simp add: dvd_imp_le)
  qed
qed

lemma ingest_valid_state:
  assumes "0 < N" and "\<forall>r \<in> set rs. valid_reading r"
  shows "index (ingest_all N rs (BME280Sensor_new N)) = length rs mod N
       \<and> filled (ingest_all N rs (BME280Sensor_new N)) = (N \<le> length rs)
       \<and> window_inv N (tempBuffer (ingest_all N rs (BME280Sensor_new N)))
            (map (\<lambda>r. fst r) rs)
       \<and> window_inv N (humBuffer (ingest_all N rs (BME280Sensor_new N)))
            (map (\<lambda>r. fst (snd r)) rs)
       \<and> window_inv N (presBuffer (ingest_all N rs (BME280Sensor_new N)))
            (map (\<lambda>r. fdiv (snd (snd r)) (Val 100)) rs)"
  using assms(2)
proof (induction rs rule: rev_induct)
  case Nil
  then show ?case
    using assms(1) by (simp add: BME280Sensor_new_def window_inv_new)
next
  case (snoc r rs)
  obtain t h praw where r: "r = (t, h, praw)" by (cases r) auto
  let ?s = "ingest_all N rs (BME280Sensor_new N)"
  let ?p = "fdiv praw (Val 100)"
  have ok: "\<not> isnan t" "\<not> isnan h" "\<not> isnan ?p"
    using snoc.prems by (simp_all add: r valid_reading_def isnan_fdiv_const)
  have IH: "index ?s = length rs mod N" "filled ?s = (N \<le> length rs)"
    "window_inv N (tempBuffer ?s) (map (\<lambda>r. fst r) rs)"
    "window_inv N (humBuffer ?s) (map (\<lambda>r. fst (snd r)) rs)"
    "window_inv N (presBuffer ?s) (map (\<lambda>r. fdiv (snd (snd r)) (Val 100)) rs)"
    using snoc by simp_all
  have run: "ingest_all N (rs @ [r]) (BME280Sensor_new N)
             = snd (BME280Sensor_update N t h praw ?s)"
    by (simp add: r ingest_all_snoc)
  have wt: "window_inv N ((tempBuffer ?s)[length rs mod N := t]) (map (\<lambda>r. fst r) rs @ [t])"
    using window_inv_step [OF IH(3) assms(1), of t] by simp
  have wh: "window_inv N ((humBuffer ?s)[length rs mod N := h])
              (map (\<lambda>r. fst (snd r)) rs @ [h])"
    using window_inv_step [OF IH(4) assms(1), of h] by simp
  have wp: "window_inv N ((presBuffer ?s)[length rs mod N := ?p])
              (map (\<lambda>r. fdiv (snd (snd r)) (Val 100)) rs @ [?p])"
    using window_inv_step [OF IH(5) assms(1), of ?p] by simp
  have nxt: "(length rs mod N + 1) mod N = Suc (length rs) mod N"
    by (simp add: mod_Suc_eq)
  show ?case
    unfolding run
    using IH(1,2) ok wt wh wp nxt wrap_filled [OF assms(1), of "length rs"]
    by (auto simp: BME280Sensor_update_def Let_def r)
qed

lemma sensor_inv_new: "0 < N \<Longrightarrow> sensor_inv N (BME280Sensor_new N)"
  by (simp add: sensor_inv_def BME280Sensor_new_def)

lemma sensor_inv_update:
  assumes "sensor_inv N s"
  shows "sensor_inv N (snd (BME280Sensor_update N t h praw s))"
proof -
  have "0 < N" using assms by (auto simp: sensor_inv_def)
  then show ?thesis
    using assms by (auto simp: sensor_inv_def BME280Sensor_update_def Let_def)
qed

lemma filled_update:
  "filled s \<Longrightarrow> filled (snd (BME280Sensor_update N t h praw s))"
  by (simp add: BME280Sensor_update_def Let_def)

lemma sensor_inv_begin:
  "sensor_inv N s \<Longrightarrow> sensor_inv N (fst (snd (BME280Sensor_begin ok1 ok2 s)))"
  by (simp add: sensor_inv_def BME280Sensor_begin_def Let_def)

lemma sensor_inv_ingest_all:
  "sensor_inv N s \<Longrightarrow> sensor_inv N (ingest_all N rs s)"
proof (induction rs arbitrary: s)
  case Nil
  then show ?case by simp
next
  case (Cons r rs)
  obtain t h praw where r: "r = (t, h, praw)" by (cases r) auto
  show ?case using Cons sensor_inv_update [of N s t h praw] by (simp add: r)
qed

lemma filled_ingest_all:
  "filled s \<Longrightarrow> filled (ingest_all N rs s)"
proof (induction rs arbitrary: s)
  case Nil
  then show ?case by simp
next
  case (Cons r rs)
  obtain t h praw where r: "r = (t, h, praw)" by (cases r) auto
  show ?case using Cons filled_update [of s N t h praw] by (simp add: r)
qed

lemma count_of_le: "sensor_inv N s \<Longrightarrow> count_of N s \<le> N"
  by (simp add: sensor_inv_def count_of_def)

lemma float_examples:
  "round32 (1 / 10) = Val (13421773 / 134217728)"
  "round32 (2 / 10) = Val (13421773 / 67108864)"
  "fmean [Val 40, Val 20, Val 30] = Val 30"
  "fmean [Val 40, Val 50] = Val 45"
  "fmean [Val (13421773 / 134217728), Val (13421773 / 67108864)] = Val (5033165 / 33554432)"
  by code_simp+

text \<open>
  Claim C1, amended. Start from a fresh sensor of capacity \<open>N > 0\<close> and ingest the
  valid readings \<open>rs\<close>, oldest first (the pressure channel stores the raw reading
  divided by 100). With no reading stored, the average of every channel is NaN, which is
  not the value zero. With at most \<open>N\<close> readings stored, the average of a channel is the
  binary32 mean of all its values in order of arrival. With more than \<open>N\<close>, it is the
  binary32 mean of the last \<open>N\<close> values only, the oldest evicted first, added in the
  order of their buffer slots. The binary32 mean adds from left to right and divides by
  the count, rounding after every operation; it is the arithmetic mean where no
  operation rounds.
\<close>

theorem average_sliding_window_binary32:
  assumes "0 < N" and "\<forall>r \<in> set rs. valid_reading r"
  shows "let s = ingest_all N rs (BME280Sensor_new N);
             ts = map (\<lambda>r. fst r) rs;
             hs = map (\<lambda>r. fst (snd r)) rs;
             ps = map (\<lambda>r. fdiv (snd (snd r)) (Val 100)) rs;
             k = length rs
         in (rs = [] \<longrightarrow>
               getAverageTemperature N s = NaN \<and> getAverageHumidity N s = NaN \<and>
               getAveragePressure N s = NaN \<and> NaN \<noteq> Val 0)
          \<and> (rs \<noteq> [] \<and> k \<le> N \<longrightarrow>
               getAverageTemperature N s = fmean ts \<and>
               getAverageHumidity N s = fmean hs \<and>
               getAveragePressure N s = fmean ps)
          \<and> (N < k \<longrightarrow>
               getAverageTemperature N s = fmean (rotate (N - k mod N) (drop (k - N) ts)) \<and>
               getAverageHumidity N s = fmean (rotate (N - k mod N) (drop (k - N) hs)) \<and>
               getAveragePressure N s = fmean (rotate (N - k mod N) (drop (k - N) ps)))
          \<and> (\<forall>xs. exact_sums 0 xs \<and> xs \<noteq> [] \<and>
                 float_of_nat (length xs) = Val (of_nat (length xs)) \<and>
                 round32 (mean xs) = Val (mean xs) \<longrightarrow>
                 fmean (map Val xs) = Val (mean xs))"
proof -
  let ?s = "ingest_all N rs (BME280Sensor_new N)"
  let ?ts = "map (\<lambda>r. fst r) rs"
  let ?hs = "map (\<lambda>r. fst (snd r)) rs"
  let ?ps = "map (\<lambda>r. fdiv (snd (snd r)) (Val 100)) rs"
  note st = ingest_valid_state [OF assms]
  have t: "getAverageTemperature N ?s
           = (if ?ts = [] then NaN
              else if length ?ts \<le> N then fmean ?ts
              else fmean (rotate (N - length ?ts mod N) (drop (length ?ts - N) ?ts)))"
    unfolding getAverageTemperature_def
    by (rule average_window) (use st assms(1) in simp_all)
  have h: "getAverageHumidity N ?s
           = (if ?hs = [] then NaN
              else if length ?hs \<le> N then fmean ?hs
              else fmean (rotate (N - length ?hs mod N) (drop (length ?hs - N) ?hs)))"
    unfolding getAverageHumidity_def
    by (rule average_window) (use st assms(1) in simp_all)
  have p: "getAveragePressure N ?s
           = (if ?ps = [] then NaN
              else if length ?ps \<le> N then fmean ?ps
              else fmean (rotate (N - length ?ps mod N) (drop (length ?ps - N) ?ps)))"
    unfolding getAveragePressure_def
    by (rule average_window) (use st assms(1) in simp_all)
  have ex: "\<forall>xs. exact_sums 0 xs \<and> xs \<noteq> [] \<and>
                 float_of_nat (length xs) = Val (of_nat (length xs)) \<and>
                 round32 (mean xs) = Val (mean xs) \<longrightarrow>
                 fmean (map Val xs) = Val (mean xs)"
    using fmean_exact by blast
  show ?thesis
    unfolding Let_def t h p using ex by auto
qed

theorem average_sliding_window_binary32_witness:
  "getAverageTemperature 3 (ingest_all 3 (valid_readings []) (BME280Sensor_new 3)) = NaN
   \<and> getAverageHumidity 3
       (ingest_all 3 (valid_readings [(10, 40, 100000), (20, 50, 100200)]) (BME280Sensor_new 3))
     = Val 45
   \<and> getAverageTemperature 3
       (ingest_all 3
          (valid_readings [(10, 40, 100000), (20, 50, 100200), (30, 60, 100400), (40, 70, 100600)])
          (BME280Sensor_new 3))
     = Val 30"
proof -
  have pos: "0 < (3::nat)" by simp
  have v0: "\<forall>r \<in> set (valid_readings []). valid_reading r"
    by (simp add: valid_readings_def)
  have v2: "\<forall>r \<in> set (valid_readings [(10, 40, 100000), (20, 50, 100200)]). valid_reading r"
    by (simp add: valid_readings_def valid_reading_def)
  have v4: "\<forall>r \<in> set (valid_readings
      [(10, 40, 100000), (20, 50, 100200), (30, 60, 100400), (40, 70, 100600)]). valid_reading r"
    by (simp add: valid_readings_def valid_reading_def)
  have rot: "rotate 2 [Val 20, Val 30, Val 40] = [Val 40, Val 20, Val (30::rat)]"
    by (simp add: numeral_2_eq_2)
  show ?thesis
    using average_sliding_window_binary32 [OF pos v0]
      average_sliding_window_binary32 [OF pos v2]
      average_sliding_window_binary32 [OF pos v4]
    by (simp add: Let_def valid_readings_def rot float_examples)
qed

text \<open>
  Claim C1 as stated fails: the average is not the exact arithmetic mean. With capacity
  2 and the temperature readings \<open>0.1f\<close> and \<open>0.2f\<close>, the sum is rounded to binary32
  and the average is \<open>5033165 / 33554432\<close>, while the arithmetic mean of the two stored
  values is \<open>40265319 / 268435456\<close>.
\<close>

theorem average_exact_mean_counterexample:
  "getAverageTemperature 2
     (ingest_all 2
        (valid_readings [(13421773 / 134217728, 50, 100000), (13421773 / 67108864, 50, 100000)])
        (BME280Sensor_new 2))
   = Val (5033165 / 33554432)
   \<and> mean [13421773 / 134217728, 13421773 / 67108864] = 40265319 / 268435456
   \<and> Val (5033165 / 33554432) \<noteq> Val (mean [13421773 / 134217728, 13421773 / 67108864])"
proof -
  have pos: "0 < (2::nat)" by simp
  let ?rs = "valid_readings
      [(13421773 / 134217728, 50, 100000), (13421773 / 67108864, 50, 100000)]"
  have st: "index (ingest_all 2 ?rs (BME280Sensor_new 2)) = length (map (\<lambda>r. fst r) ?rs) mod 2"
    "filled (ingest_all 2 ?rs (BME280Sensor_new 2)) = (2 \<le> length (map (\<lambda>r. fst r) ?rs))"
    "window_inv 2 (tempBuffer (ingest_all 2 ?rs (BME280Sensor_new 2))) (map (\<lambda>r. fst r) ?rs)"
    using ingest_valid_state [OF pos, of ?rs]
    by (simp_all add: valid_readings_def valid_reading_def)
  have "getAverageTemperature 2 (ingest_all 2 ?rs (BME280Sensor_new 2))
        = fmean (map (\<lambda>r. fst r) ?rs)"
    unfolding getAverageTemperature_def
    using average_window [OF pos st] by (simp add: valid_readings_def)
  then have avg: "getAverageTemperature 2 (ingest_all 2 ?rs (BME280Sensor_new 2))
                  = Val (5033165 / 33554432)"
    by (simp add: valid_readings_def float_examples)
  have m: "mean [13421773 / 134217728, 13421773 / 67108864] = 40265319 / 268435456"
    by (simp add: mean_def)
  show ?thesis using avg m by simp
qed

text \<open>
  Claim C7. The three channels share one write cursor. When the temperature, the
  humidity or the pressure reading of a sample is NaN, \<open>update\<close> logs the failure and
  leaves the sensor exactly as it was: the three buffers, the cursor and the full flag
  are unchanged, so no channel stores a value of that sample.
\<close>

theorem invalid_reading_drops_sample:
  assumes "isnan t \<or> isnan h \<or> isnan praw"
  shows "BME280Sensor_update N t h praw s
         = ([println ''Sensor read failed, skipping sample...''], s)"
proof -
  have "isnan (fdiv praw (Val 100)) = isnan praw" by (simp add: isnan_fdiv_const)
  then show ?thesis using assms by (auto simp: BME280Sensor_update_def Let_def)
qed

theorem invalid_reading_drops_sample_witness:
  "BME280Sensor_update 3 (Val 21) NaN (Val 101300)
     (ingest_all 3 (valid_readings [(10, 40, 100000)]) (BME280Sensor_new 3))
   = ([println ''Sensor read failed, skipping sample...''],
      ingest_all 3 (valid_readings [(10, 40, 100000)]) (BME280Sensor_new 3))"
proof -
  have inv: "isnan (Val 21) \<or> isnan NaN \<or> isnan (Val 101300)" by simp
  show ?thesis using invalid_reading_drops_sample [OF inv] by simp
qed

text \<open>
  Claim C10. The constructor establishes \<open>index < SAMPLE_SIZE\<close> (for a non-empty
  window), and \<open>begin\<close>, \<open>update\<close> and every run of updates preserve it together with
  the lengths of the three arrays; \<open>update\<close> writes at an index inside the arrays; the
  full flag, once set, stays set; and the count \<open>average\<close> uses is at most
  \<open>SAMPLE_SIZE\<close>, so every slot it reads is inside the array.
\<close>

theorem sensor_index_in_bounds:
  assumes "0 < N"
  shows "sensor_inv N (BME280Sensor_new N)
       \<and> (sensor_inv N s \<longrightarrow>
            sensor_inv N (snd (BME280Sensor_update N t h praw s))
          \<and> sensor_inv N (fst (snd (BME280Sensor_begin ok1 ok2 s)))
          \<and> sensor_inv N (ingest_all N rs s)
          \<and> index s < length (tempBuffer s) \<and> index s < length (humBuffer s)
          \<and> index s < length (presBuffer s)
          \<and> count_of N s \<le> N
          \<and> (\<forall>i < count_of N s.
                i < length (tempBuffer s) \<and> i < length (humBuffer s) \<and>
                i < length (presBuffer s)))
       \<and> (filled s \<longrightarrow>
            filled (snd (BME280Sensor_update N t h praw s))
          \<and> filled (fst (snd (BME280Sensor_begin ok1 ok2 s)))
          \<and> filled (ingest_all N rs s))"
proof (intro conjI impI)
  show "sensor_inv N (BME280Sensor_new N)" using assms by (rule sensor_inv_new)
next
  assume "sensor_inv N s"
  then show "sensor_inv N (snd (BME280Sensor_update N t h praw s))"
    by (rule sensor_inv_update)
next
  assume "sensor_inv N s"
  then show "sensor_inv N (fst (snd (BME280Sensor_begin ok1 ok2 s)))"
    by (rule sensor_inv_begin)
next
  assume "sensor_inv N s"
  then show "sensor_inv N (ingest_all N rs s)" by (rule sensor_inv_ingest_all)
next
  assume "sensor_inv N s"
  then show "index s < length (tempBuffer s)" by (simp add: sensor_inv_def)
next
  assume "sensor_inv N s"
  then show "index s < length (humBuffer s)" by (simp add: sensor_inv_def)
next
  assume "sensor_inv N s"
  then show "index s < length (presBuffer s)" by (simp add: sensor_inv_def)
next
  assume "sensor_inv N s"
  then show "count_of N s \<le> N" by (rule count_of_le)
next
  assume inv: "sensor_inv N s"
  show "\<forall>i < count_of N s.
          i < length (tempBuffer s) \<and> i < length (humBuffer s) \<and> i < length (presBuffer s)"
    using count_of_le [OF inv] inv by (auto simp: sensor_inv_def)
next
  assume "filled s"
  then show "filled (snd (BME280Sensor_update N t h praw s))" by (rule filled_update)
next
  assume "filled s"
  then show "filled (fst (snd (BME280Sensor_begin ok1 ok2 s)))"
    by (simp add: BME280Sensor_begin_def Let_def)
next
  assume "filled s"
  then show "filled (ingest_all N rs s)" by (rule filled_ingest_all)
qed

theorem sensor_index_in_bounds_witness:
  "sensor_inv 2 (ingest_all 2 (valid_readings [(1, 2, 300), (4, 5, 600)]) (BME280Sensor_new 2))
   \<and> filled (ingest_all 2 (valid_readings [(1, 2, 300), (4, 5, 600)]) (BME280Sensor_new 2))
   \<and> sensor_inv 2
       (snd (BME280Sensor_update 2 (Val 7) (Val 8) (Val 900)
          (ingest_all 2 (valid_readings [(1, 2, 300), (4, 5, 600)]) (BME280Sensor_new 2))))
   \<and> filled
       (snd (BME280Sensor_update 2 (Val 7) (Val 8) (Val 900)
          (ingest_all 2 (valid_readings [(1, 2, 300), (4, 5, 600)]) (BME280Sensor_new 2))))
   \<and> count_of 2
       (ingest_all 2 (valid_readings [(1, 2, 300), (4, 5, 600)]) (BME280Sensor_new 2)) \<le> 2"
proof -
  have pos: "0 < (2::nat)" by simp
  let ?s = "ingest_all 2 (valid_readings [(1, 2, 300), (4, 5, 600)]) (BME280Sensor_new 2)"
  have inv: "sensor_inv 2 ?s"
    by (simp add: sensor_inv_def valid_readings_def BME280Sensor_new_def
        BME280Sensor_update_def Let_def)
  have fl: "filled ?s"
    by (simp add: valid_readings_def BME280Sensor_new_def BME280Sensor_update_def Let_def)
  show ?thesis
    using sensor_index_in_bounds [OF pos, of ?s "Val 7" "Val 8" "Val 900" True True "[]"] inv fl
    by simp
qed

section \<open>Properties of the connection supervisor\<close>

lemma wait_loop_no_connect: "filter is_connect (fst (wait_loop start tmo ps)) = []"
  by (induction start tmo ps rule: wait_loop.induct) (auto split: prod.splits)

lemma wait_loop_no_transport: "filter is_transport (fst (wait_loop start tmo ps)) = []"
  by (induction start tmo ps rule: wait_loop.induct) (auto split: prod.splits)

lemma update_closed:
  "\<not> gate_open e m \<Longrightarrow> WiFiManager_update e m = ([], m, True)"
  by (auto simp: gate_open_def WiFiManager_update_def Let_def)

lemma update_open_requests:
  "gate_open e m \<Longrightarrow> connect_requests (fst (WiFiManager_update e m)) = 1"
  using wait_loop_no_connect [of "millis (start_ms e)" "timeout m" "polls e"]
  by (auto simp: gate_open_def WiFiManager_update_def Let_def connect_requests_def println_def
      split: prod.splits)

lemma update_open_manager:
  "gate_open e m \<Longrightarrow>
   fst (snd (WiFiManager_update e m)) = m\<lparr>lastAttempt := millis (now_ms e)\<rparr>"
  by (auto simp: gate_open_def WiFiManager_update_def Let_def split: prod.splits)

lemma update_requests:
  "connect_requests (fst (WiFiManager_update e m)) = (if gate_open e m then 1 else 0)"
proof (cases "gate_open e m")
  case True
  then show ?thesis by (simp add: update_open_requests)
next
  case False
  then show ?thesis by (simp add: update_closed connect_requests_def)
qed

lemma update_timeout: "timeout (fst (snd (WiFiManager_update e m))) = timeout m"
  by (cases "gate_open e m") (simp_all add: update_open_manager update_closed)

lemma gate_open_elapsed:
  assumes "tp \<le> t" and "\<not> millis t - millis tp < tmo"
  shows "tp + unat tmo \<le> t"
proof -
  have "millis t - millis tp = (word_of_nat (t - tp) :: ulong)"
    using assms(1) by (simp add: millis_def of_nat_diff)
  then have "unat tmo \<le> unat (word_of_nat (t - tp) :: ulong)"
    using assms(2) by (simp add: word_less_nat_alt)
  also have "unat (word_of_nat (t - tp) :: ulong) \<le> t - tp"
    by (simp add: unat_of_nat)
  finally show ?thesis using assms(1) by simp
qed

lemma attempt_times_Cons:
  "attempt_times (e # es) m =
     (if gate_open e m then
        now_ms e #
        (if snd (snd (WiFiManager_update e m))
         then attempt_times es (m\<lparr>lastAttempt := millis (now_ms e)\<rparr>) else [])
      else attempt_times es m)"
proof (cases "gate_open e m")
  case True
  obtain evs m' r where u: "WiFiManager_update e m = (evs, m', r)"
    by (cases "WiFiManager_update e m") auto
  have "connect_requests evs = 1" using update_open_requests [OF True] u by simp
  moreover have "m' = m\<lparr>lastAttempt := millis (now_ms e)\<rparr>"
    using update_open_manager [OF True] u by simp
  ultimately show ?thesis using True u by (simp add: attempt_times_def attempted_def)
next
  case False
  then show ?thesis
    by (simp add: attempt_times_def attempted_def update_closed connect_requests_def)
qed

lemma attempts_after_previous:
  assumes "sorted (map now_ms es)" and "lastAttempt m = millis tp"
    and "\<forall>e \<in> set es. tp \<le> now_ms e"
  shows "successively (\<lambda>a b. a + unat (timeout m) \<le> b) (tp # attempt_times es m)"
  using assms
proof (induction es arbitrary: m tp)
  case Nil
  then show ?case by (simp add: attempt_times_def)
next
  case (Cons e es)
  show ?case
  proof (cases "gate_open e m")
    case False
    then show ?thesis using Cons by (simp add: attempt_times_Cons)
  next
    case True
    let ?m' = "m\<lparr>lastAttempt := millis (now_ms e)\<rparr>"
    have le: "tp \<le> now_ms e" using Cons.prems(3) by simp
    have far: "tp + unat (timeout m) \<le> now_ms e"
      using True Cons.prems(2) le by (intro gate_open_elapsed) (simp_all add: gate_open_def)
    have "successively (\<lambda>a b. a + unat (timeout ?m') \<le> b) (now_ms e # attempt_times es ?m')"
      using Cons.prems(1) by (intro Cons.IH) auto
    then have "successively (\<lambda>a b. a + unat (timeout m) \<le> b)
                 (now_ms e # attempt_times es ?m')"
      by simp
    then show ?thesis using True far by (simp add: attempt_times_Cons)
  qed
qed

lemma attempts_spaced:
  assumes "sorted (map now_ms es)"
  shows "successively (\<lambda>a b. a + unat (timeout m) \<le> b) (attempt_times es m)"
  using assms
proof (induction es arbitrary: m)
  case Nil
  then show ?case by (simp add: attempt_times_def)
next
  case (Cons e es)
  show ?case
  proof (cases "gate_open e m")
    case False
    then show ?thesis using Cons by (simp add: attempt_times_Cons)
  next
    case True
    let ?m' = "m\<lparr>lastAttempt := millis (now_ms e)\<rparr>"
    have "successively (\<lambda>a b. a + unat (timeout ?m') \<le> b) (now_ms e # attempt_times es ?m')"
      using Cons.prems by (intro attempts_after_previous) auto
    then show ?thesis using True by (simp add: attempt_times_Cons)
  qed
qed

lemma update_calls_entry:
  "c \<in> set (update_calls es m) \<Longrightarrow>
   \<exists>m0. timeout m0 = timeout m \<and> fst (snd c) = fst (WiFiManager_update (fst c) m0) \<and>
        snd (snd c) = fst (snd (WiFiManager_update (fst c) m0))"
proof (induction es arbitrary: m)
  case Nil
  then show ?case by simp
next
  case (Cons e es)
  obtain evs m' r where u: "WiFiManager_update e m = (evs, m', r)"
    by (cases "WiFiManager_update e m") auto
  have tm: "timeout m' = timeout m" using update_timeout [of e m] u by simp
  from Cons.prems u consider "c = (e, evs, m')" | "c \<in> set (update_calls es m')"
    by (auto split: if_splits)
  then show ?case
  proof cases
    case 1
    then show ?thesis using u by (intro exI [of _ m]) simp
  next
    case 2
    then show ?thesis using Cons.IH [of m'] tm by auto
  qed
qed

text \<open>
  Claim C2. Take any run of calls of \<open>update\<close> at non-decreasing clock times, with any
  link behaviour. Two successive connect requests are at least \<open>timeout\<close> milliseconds
  apart, however often \<open>update\<close> is called in between and also across the wrap-around of
  the 32-bit clock. A call that issues a connect request found the link not connected,
  issues exactly one request, and leaves \<open>lastAttempt\<close> at the time \<open>now\<close> it read.
\<close>

theorem connect_rate_limited:
  assumes "sorted (map now_ms es)"
  shows "successively (\<lambda>a b. a + unat (timeout m) \<le> b) (attempt_times es m)
       \<and> (\<forall>c \<in> set (update_calls es m).
            attempted c \<longrightarrow>
              \<not> connected_at_entry (fst c) \<and> connect_requests (fst (snd c)) = 1 \<and>
              lastAttempt (snd (snd c)) = millis (now_ms (fst c)))"
proof -
  have spaced: "successively (\<lambda>a b. a + unat (timeout m) \<le> b) (attempt_times es m)"
    using assms by (rule attempts_spaced)
  have each: "\<not> connected_at_entry (fst c) \<and> connect_requests (fst (snd c)) = 1 \<and>
              lastAttempt (snd (snd c)) = millis (now_ms (fst c))"
    if c: "c \<in> set (update_calls es m)" and a: "attempted c" for c
  proof -
    obtain m0 where ev: "fst (snd c) = fst (WiFiManager_update (fst c) m0)"
      and mg: "snd (snd c) = fst (snd (WiFiManager_update (fst c) m0))"
      using update_calls_entry [OF c] by blast
    have op: "gate_open (fst c) m0"
      using a ev update_requests [of "fst c" m0] by (auto simp: attempted_def split: if_splits)
    show ?thesis
      using op ev mg update_open_requests [OF op] update_open_manager [OF op]
      by (simp add: gate_open_def)
  qed
  show ?thesis using spaced each by blast
qed

theorem connect_rate_limited_witness:
  "sorted (map now_ms
     [\<lparr>connected_at_entry = False, now_ms = 500, start_ms = 500, polls = [],
        connected_after = False, local_ip = []\<rparr>,
      \<lparr>connected_at_entry = False, now_ms = 1000, start_ms = 1001,
        polls = [Down 1002, Up], connected_after = True, local_ip = ''10.0.0.7''\<rparr>,
      \<lparr>connected_at_entry = False, now_ms = 1500, start_ms = 1500, polls = [],
        connected_after = False, local_ip = []\<rparr>,
      \<lparr>connected_at_entry = False, now_ms = 2100, start_ms = 2101,
        polls = [Down 2102, Up], connected_after = True, local_ip = ''10.0.0.7''\<rparr>])
   \<and> attempt_times
     [\<lparr>connected_at_entry = False, now_ms = 500, start_ms = 500, polls = [],
        connected_after = False, local_ip = []\<rparr>,
      \<lparr>connected_at_entry = False, now_ms = 1000, start_ms = 1001,
        polls = [Down 1002, Up], connected_after = True, local_ip = ''10.0.0.7''\<rparr>,
      \<lparr>connected_at_entry = False, now_ms = 1500, start_ms = 1500, polls = [],
        connected_after = False, local_ip = []\<rparr>,
      \<lparr>connected_at_entry = False, now_ms = 2100, start_ms = 2101,
        polls = [Down 2102, Up], connected_after = True, local_ip = ''10.0.0.7''\<rparr>]
     (WiFiManager_new ''net'' ''secret'' 1000) = [1000, 2100]
   \<and> successively (\<lambda>a b. a + unat (timeout (WiFiManager_new ''net'' ''secret'' 1000)) \<le> b)
       (attempt_times
     [\<lparr>connected_at_entry = False, now_ms = 500, start_ms = 500, polls = [],
        connected_after = False, local_ip = []\<rparr>,
      \<lparr>connected_at_entry = False, now_ms = 1000, start_ms = 1001,
        polls = [Down 1002, Up], connected_after = True, local_ip = ''10.0.0.7''\<rparr>,
      \<lparr>connected_at_entry = False, now_ms = 1500, start_ms = 1500, polls = [],
        connected_after = False, local_ip = []\<rparr>,
      \<lparr>connected_at_entry = False, now_ms = 2100, start_ms = 2101,
        polls = [Down 2102, Up], connected_after = True, local_ip = ''10.0.0.7''\<rparr>]
     (WiFiManager_new ''net'' ''secret'' 1000))"
proof -
  let ?es = "[\<lparr>connected_at_entry = False, now_ms = 500, start_ms = 500, polls = [],
        connected_after = False, local_ip = []\<rparr>,
      \<lparr>connected_at_entry = False, now_ms = 1000, start_ms = 1001,
        polls = [Down 1002, Up], connected_after = True, local_ip = ''10.0.0.7''\<rparr>,
      \<lparr>connected_at_entry = False, now_ms = 1500, start_ms = 1500, polls = [],
        connected_after = False, local_ip = []\<rparr>,
      \<lparr>connected_at_entry = False, now_ms = 2100, start_ms = 2101,
        polls = [Down 2102, Up], connected_after = True, local_ip = ''10.0.0.7''\<rparr>]"
  have srt: "sorted (map now_ms ?es)" by simp
  have times: "attempt_times ?es (WiFiManager_new ''net'' ''secret'' 1000) = [1000, 2100]"
    by (simp add: attempt_times_def attempted_def connect_requests_def WiFiManager_update_def
        WiFiManager_new_def millis_def println_def Let_def)
  show ?thesis
    using connect_rate_limited [OF srt, of "WiFiManager_new ''net'' ''secret'' 1000"] srt times
    by simp
qed

lemma serial_output_append:
  "serial_output (xs @ ys) = serial_output xs @ serial_output ys"
  by (induction xs rule: serial_output.induct) simp_all

lemma update_part_000_closed:
  "\<not> gate_open e m \<Longrightarrow> WiFiManager_update_part_000 e m = ([], m, True)"
  by (auto simp: gate_open_def WiFiManager_update_part_000_def Let_def)

lemma update_part_000_events:
  assumes "gate_open e m"
  shows "\<exists>rest. fst (WiFiManager_update_part_000 e (m\<lparr>pass := p\<rparr>))
           = [SerialOut (''Connecting to Wi-Fi: '' @ ssid m @ ''\<newline>''),
              SerialOut (p @ ''\<newline>''), WiFiBegin (ssid m) p] @ rest
         \<and> serial_output rest = serial_output (drop 3 (fst (WiFiManager_update_part_000 e m)))"
  using assms
  by (auto simp: gate_open_def WiFiManager_update_part_000_def Let_def split: prod.splits)

text \<open>
  Claim C9. In the revision \<open>src/unnamed/part_000\<close>, a call of \<open>update\<close> that issues a
  connect request writes the configured password, followed by a newline, to the serial
  port. The serial output therefore depends on the password: the same call in the same
  environment with any other password writes different bytes.
\<close>

theorem password_written_to_serial:
  assumes "0 < connect_requests (fst (WiFiManager_update_part_000 e m))"
  shows "SerialOut (pass m @ ''\<newline>'') \<in> set (fst (WiFiManager_update_part_000 e m))
       \<and> (p \<noteq> pass m \<longrightarrow>
            serial_output (fst (WiFiManager_update_part_000 e (m\<lparr>pass := p\<rparr>)))
            \<noteq> serial_output (fst (WiFiManager_update_part_000 e m)))"
proof -
  have op: "gate_open e m"
  proof (rule ccontr)
    assume "\<not> gate_open e m"
    then have "WiFiManager_update_part_000 e m = ([], m, True)"
      by (rule update_part_000_closed)
    then show False using assms by (simp add: connect_requests_def)
  qed
  let ?banner = "''Connecting to Wi-Fi: '' @ ssid m @ ''\<newline>''"
  let ?tail = "serial_output (drop 3 (fst (WiFiManager_update_part_000 e m)))"
  have out: "serial_output (fst (WiFiManager_update_part_000 e (m\<lparr>pass := q\<rparr>)))
             = ?banner @ q @ ''\<newline>'' @ ?tail" for q
  proof -
    obtain rest where
      ev: "fst (WiFiManager_update_part_000 e (m\<lparr>pass := q\<rparr>))
           = [SerialOut ?banner, SerialOut (q @ ''\<newline>''), WiFiBegin (ssid m) q] @ rest"
      and tl: "serial_output rest = ?tail"
      using update_part_000_events [OF op, of q] by blast
    show ?thesis unfolding ev by (simp add: tl)
  qed
  have own: "m\<lparr>pass := pass m\<rparr> = m" by simp
  obtain rest where
    "fst (WiFiManager_update_part_000 e m)
     = [SerialOut ?banner, SerialOut (pass m @ ''\<newline>''), WiFiBegin (ssid m) (pass m)] @ rest"
    using update_part_000_events [OF op, of "pass m"] own by auto
  then have mem: "SerialOut (pass m @ ''\<newline>'') \<in> set (fst (WiFiManager_update_part_000 e m))"
    by simp
  have "serial_output (fst (WiFiManager_update_part_000 e (m\<lparr>pass := p\<rparr>)))
        \<noteq> serial_output (fst (WiFiManager_update_part_000 e m))" if "p \<noteq> pass m"
  proof
    assume "serial_output (fst (WiFiManager_update_part_000 e (m\<lparr>pass := p\<rparr>)))
            = serial_output (fst (WiFiManager_update_part_000 e m))"
    then have "?banner @ p @ ''\<newline>'' @ ?tail = ?banner @ pass m @ ''\<newline>'' @ ?tail"
      using out [of p] out [of "pass m"] own by simp
    then have "p @ (''\<newline>'' @ ?tail) = pass m @ (''\<newline>'' @ ?tail)" by simp
    then have "p = pass m" by (simp only: append_same_eq)
    then show False using that by simp
  qed
  then show ?thesis using mem by blast
qed

theorem password_written_to_serial_witness:
  "SerialOut ''secret\<newline>''
     \<in> set (fst (WiFiManager_update_part_000
          \<lparr>connected_at_entry = False, now_ms = 1000, start_ms = 1001,
             polls = [Down 1002, Up], connected_after = True, local_ip = ''10.0.0.7''\<rparr>
          (WiFiManager_new ''net'' ''secret'' 1000)))
   \<and> serial_output (fst (WiFiManager_update_part_000
          \<lparr>connected_at_entry = False, now_ms = 1000, start_ms = 1001,
             polls = [Down 1002, Up], connected_after = True, local_ip = ''10.0.0.7''\<rparr>
          ((WiFiManager_new ''net'' ''secret'' 1000)\<lparr>pass := ''hunter2''\<rparr>)))
     \<noteq> serial_output (fst (WiFiManager_update_part_000
          \<lparr>connected_at_entry = False, now_ms = 1000, start_ms = 1001,
             polls = [Down 1002, Up], connected_after = True, local_ip = ''10.0.0.7''\<rparr>
          (WiFiManager_new ''net'' ''secret'' 1000)))"
proof -
  let ?e = "\<lparr>connected_at_entry = False, now_ms = 1000, start_ms = 1001,
             polls = [Down 1002, Up], connected_after = True, local_ip = ''10.0.0.7''\<rparr>"
  let ?m = "WiFiManager_new ''net'' ''secret'' 1000"
  have att: "0 < connect_requests (fst (WiFiManager_update_part_000 ?e ?m))"
    by (simp add: connect_requests_def WiFiManager_update_part_000_def WiFiManager_new_def
        millis_def println_def Let_def)
  have ne: "''hunter2'' \<noteq> pass ?m" by (simp add: WiFiManager_new_def)
  have pw: "pass ?m = ''secret''" by (simp add: WiFiManager_new_def)
  show ?thesis
    using password_written_to_serial [OF att, of "''hunter2''"] ne pw by simp
qed

section \<open>Properties of setup\<close>

lemma begin_no_connect: "filter is_connect (fst (BME280Sensor_begin ok1 ok2 s)) = []"
  by (simp add: BME280Sensor_begin_def Let_def)

lemma begin_found: "snd (snd (BME280Sensor_begin ok1 ok2 s)) = (ok1 \<or> ok2)"
  by (simp add: BME280Sensor_begin_def Let_def)

lemma setup_requests:
  assumes "bme_at_0x76 e \<or> bme_at_0x77 e"
  shows "filter is_connect (fst (setup_fn e g))
         = filter is_connect (fst (WiFiManager_update (setup_wifi e) (wifiManager g)))"
proof -
  obtain evb sn found where
    b: "BME280Sensor_begin (bme_at_0x76 e) (bme_at_0x77 e) (sensor g) = (evb, sn, found)"
    by (cases "BME280Sensor_begin (bme_at_0x76 e) (bme_at_0x77 e) (sensor g)") auto
  have found using begin_found [of "bme_at_0x76 e" "bme_at_0x77 e" "sensor g"] b assms by simp
  moreover have "filter is_connect evb = []"
    using begin_no_connect [of "bme_at_0x76 e" "bme_at_0x77 e" "sensor g"] b by simp
  ultimately show ?thesis
    by (simp add: setup_fn_def b Let_def split: prod.splits)
qed

lemma new_gate:
  "gate_open w (wifiManager (globals_new cfg))
   = (\<not> connected_at_entry w \<and> WIFI_TIMEOUT_MS cfg \<le> millis (now_ms w))"
  by (simp add: gate_open_def globals_new_def WiFiManager_new_def not_less)

text \<open>
  Before \<open>WIFI_TIMEOUT_MS\<close> milliseconds have passed since boot, the call of \<open>update\<close> in
  \<open>setup\<close> issues no connect request, whatever the configuration: \<open>lastAttempt\<close>
  starts at 0, so the rate limit treats the boot as an attempt.
\<close>

lemma setup_no_connect_before_timeout:
  assumes "bme_at_0x76 e \<or> bme_at_0x77 e"
    and "millis (now_ms (setup_wifi e)) < WIFI_TIMEOUT_MS cfg"
  shows "connect_requests (fst (setup_fn e (globals_new cfg))) = 0"
proof -
  have "\<not> gate_open (setup_wifi e) (wifiManager (globals_new cfg))"
    using assms(2) by (simp add: new_gate not_le)
  then show ?thesis
    using setup_requests [OF assms(1), of "globals_new cfg"]
      update_requests [of "setup_wifi e" "wifiManager (globals_new cfg)"]
    by (simp add: connect_requests_def)
qed

text \<open>
  Claim C8: at startup, after the sensor has been initialised, the program issues one
  connect request before it enters the main loop. The code calls \<open>update\<close> in \<open>setup\<close>
  for this, but does not achieve it. With the sensor found at 0x76, the link down and
  \<open>setup\<close> reaching \<open>update\<close> 50 ms after boot with a timeout of 10 s, \<open>setup\<close>
  returns to the main loop and has issued no connect request.
\<close>

theorem startup_connect_suppressed:
  "snd (snd (setup_fn
      \<lparr>bme_at_0x76 = True, bme_at_0x77 = False,
        setup_wifi = \<lparr>connected_at_entry = False, now_ms = 50, start_ms = 50, polls = [],
                      connected_after = False, local_ip = []\<rparr>\<rparr>
      (globals_new \<lparr>WIFI_SSID = ''net'', WIFI_PASS = ''secret'', WIFI_TIMEOUT_MS = 10000,
                    SERVER_URL = ''http://example.org'', ENDPOINT = ''/api'', API_KEY = ''abc'',
                    SAMPLE_SIZE = 10, INTERVAL_MS = 60000\<rparr>)))
   \<and> connect_requests (fst (setup_fn
      \<lparr>bme_at_0x76 = True, bme_at_0x77 = False,
        setup_wifi = \<lparr>connected_at_entry = False, now_ms = 50, start_ms = 50, polls = [],
                      connected_after = False, local_ip = []\<rparr>\<rparr>
      (globals_new \<lparr>WIFI_SSID = ''net'', WIFI_PASS = ''secret'', WIFI_TIMEOUT_MS = 10000,
                    SERVER_URL = ''http://example.org'', ENDPOINT = ''/api'', API_KEY = ''abc'',
                    SAMPLE_SIZE = 10, INTERVAL_MS = 60000\<rparr>))) = 0
   \<and> fst (setup_fn
      \<lparr>bme_at_0x76 = True, bme_at_0x77 = False,
        setup_wifi = \<lparr>connected_at_entry = False, now_ms = 50, start_ms = 50, polls = [],
                      connected_after = False, local_ip = []\<rparr>\<rparr>
      (globals_new \<lparr>WIFI_SSID = ''net'', WIFI_PASS = ''secret'', WIFI_TIMEOUT_MS = 10000,
                    SERVER_URL = ''http://example.org'', ENDPOINT = ''/api'', API_KEY = ''abc'',
                    SAMPLE_SIZE = 10, INTERVAL_MS = 60000\<rparr>))
     = [SerialBegin 115200, WireBegin, BmeBegin 0x76]"
  by (simp add: setup_fn_def globals_new_def BME280Sensor_begin_def BME280Sensor_new_def
      WiFiManager_update_def WiFiManager_new_def DataSender_new_def connect_requests_def
      millis_def Let_def)

section \<open>Properties of the reporter\<close>

text \<open>
  Claim C4. When the link is not connected, \<open>send\<close> writes one line to the serial port
  and returns: it does not begin a request, add a header, post or end one. (The C++
  function returns \<open>void\<close>; the early return is its "link down" outcome.)
\<close>

theorem send_link_down:
  assumes "\<not> link_up e"
  shows "DataSender_send d temperature humidity pressure e
           = [println ''Wi-Fi disconnected, cannot send data.'']
       \<and> transport_calls (DataSender_send d temperature humidity pressure e) = 0"
  using assms by (simp add: DataSender_send_def transport_calls_def println_def)

theorem send_link_down_witness:
  "transport_calls
     (DataSender_send (DataSender_new ''http://example.org'' ''/api'' ''abc'')
        (Val 21) (Val 55) (Val 1013)
        \<lparr>link_up = False, post_code = 200, error_text = []\<rparr>) = 0"
proof -
  have down: "\<not> link_up \<lparr>link_up = False, post_code = 200, error_text = []\<rparr>" by simp
  show ?thesis using send_link_down [OF down] by blast
qed

lemma is_digit_char_of: "(k::nat) < 10 \<Longrightarrow> is_digit (char_of (48 + k))"
  by (simp add: is_digit_def)

lemma dec_nat_digits: "\<forall>c \<in> set (dec_nat n). is_digit c"
proof (induction n rule: dec_nat.induct)
  case (1 n)
  show ?case
  proof (cases "n < 10")
    case True
    then show ?thesis using is_digit_char_of [of n] by (subst dec_nat.simps) simp
  next
    case False
    have "is_digit (char_of (48 + n mod 10))" by (rule is_digit_char_of) simp
    then show ?thesis using False 1 by (subst dec_nat.simps) auto
  qed
qed

lemma dec_nat_nonempty: "dec_nat n \<noteq> []"
  by (subst dec_nat.simps) simp

lemma dec_nat_two:
  assumes "n < 100"
  shows "\<exists>d1 d2. zero_pad 2 (dec_nat n) = [d1, d2] \<and> is_digit d1 \<and> is_digit d2"
proof (cases "n < 10")
  case True
  have "dec_nat n = [char_of (48 + n)]" using True by (subst dec_nat.simps) simp
  moreover have "is_digit (char_of (48 + n))" using True by (rule is_digit_char_of)
  moreover have "is_digit CHR ''0''" by (simp add: is_digit_def)
  ultimately show ?thesis by (simp add: zero_pad_def numeral_2_eq_2)
next
  case False
  then have small: "n div 10 < 10" using assms by simp
  have "dec_nat (n div 10) = [char_of (48 + n div 10)]"
    using small by (subst dec_nat.simps) simp
  then have "dec_nat n = [char_of (48 + n div 10), char_of (48 + n mod 10)]"
    using False by (subst dec_nat.simps) simp
  moreover have "is_digit (char_of (48 + n div 10))" using small by (rule is_digit_char_of)
  moreover have "is_digit (char_of (48 + n mod 10))" by (rule is_digit_char_of) simp
  ultimately show ?thesis by (simp add: zero_pad_def)
qed

lemma fraction_small:
  fixes a :: rat
  assumes "0 \<le> a"
  shows "nat \<lfloor>(a - of_nat (nat \<lfloor>a\<rfloor>)) * 10 ^ 2\<rfloor> < 100"
proof -
  have "0 \<le> \<lfloor>a\<rfloor>" using assms by simp
  then have "(of_nat (nat \<lfloor>a\<rfloor>) :: rat) = of_int \<lfloor>a\<rfloor>" by simp
  then have "a - of_nat (nat \<lfloor>a\<rfloor>) < 1" by linarith
  then have "(a - of_nat (nat \<lfloor>a\<rfloor>)) * 10 ^ 2 < of_int 100" by simp
  then have "\<lfloor>(a - of_nat (nat \<lfloor>a\<rfloor>)) * 10 ^ 2\<rfloor> < 100" by (simp only: floor_less_iff)
  then show ?thesis by linarith
qed

lemma digit_not_point: "is_digit c \<Longrightarrow> c \<noteq> CHR ''.''"
  by (auto simp: is_digit_def)

lemma String_float_two_decimals: "two_decimals (String_float (Val x) 2)"
proof -
  define a where "a = \<bar>x\<bar> + 1 / (2 * 10 ^ 2)"
  define ip where "ip = nat \<lfloor>a\<rfloor>"
  define fr where "fr = nat \<lfloor>(a - of_nat ip) * 10 ^ 2\<rfloor>"
  define body where "body = (if x < 0 then ''-'' else []) @ dec_nat ip"
  have str0: "String_float (Val x) 2 = body @ ''.'' @ zero_pad 2 (dec_nat fr)"
    by (simp add: String_float_def Let_def a_def ip_def fr_def body_def)
  have "0 \<le> a" by (simp add: a_def)
  then have "fr < 100" unfolding fr_def ip_def by (rule fraction_small)
  then obtain d1 d2 where pad: "zero_pad 2 (dec_nat fr) = [d1, d2]"
    and d1: "is_digit d1" and d2: "is_digit d2"
    using dec_nat_two by blast
  have "CHR ''.'' \<notin> set (dec_nat ip)" using dec_nat_digits digit_not_point by blast
  then have nodot: "CHR ''.'' \<notin> set body" by (simp add: body_def)
  have ne: "body \<noteq> []" using dec_nat_nonempty by (simp add: body_def)
  have "rev (String_float (Val x) 2) = d2 # d1 # CHR ''.'' # rev body"
    unfolding str0 pad by simp
  then show ?thesis using d1 d2 nodot ne by (simp add: two_decimals_def)
qed

lemma String_float_examples:
  "String_float (Val (21567 / 1000)) 2 = ''21.57''"
  "String_float (Val (551 / 10)) 2 = ''55.10''"
  "String_float (Val 1013) 2 = ''1013.00''"
  by code_simp+

text \<open>The three values of the example as binary32 numbers print in the same way.\<close>

lemma String_float_binary32_examples:
  "String_float (round32 (21567 / 1000)) 2 = ''21.57''"
  "String_float (round32 (551 / 10)) 2 = ''55.10''"
  "String_float (round32 1013) 2 = ''1013.00''"
  by code_simp+

text \<open>
  Claim C5. A \<open>send\<close> with the link up performs exactly one POST. Its body is the text
  \<open>{"api_key":"K","content":{"temperature":T,"humidity":H,"pressure":P}}\<close>, where \<open>K\<close> is
  the configured key, inserted as it is, and \<open>T\<close>, \<open>H\<close>, \<open>P\<close> are the three values
  formatted with two decimal places, in this order; a formatted finite value ends in a
  decimal point and exactly two digits. For the key \<open>abc\<close> and the values 21.567, 55.1
  and 1013.0 the body is
  \<open>{"api_key":"abc","content":{"temperature":21.57,"humidity":55.10,"pressure":1013.00}}\<close>.
\<close>

theorem send_payload_shape:
  assumes "link_up e"
  shows "filter is_transport (DataSender_send d t h p e)
         = [HttpBegin (serverUrl d @ endpoint d),
            HttpAddHeader ''Content-Type'' ''application/json'',
            HttpPost (''{\"api_key\":\"'' @ apiKey d @ ''\",\"content\":{\"temperature\":'' @
                      String_float t 2 @ '',\"humidity\":'' @ String_float h 2 @
                      '',\"pressure\":'' @ String_float p 2 @ ''}}''),
            HttpEnd]
       \<and> two_decimals (String_float (Val x) 2)
       \<and> payload_of (DataSender_new u ep ''abc'') (Val (21567 / 1000)) (Val (551 / 10)) (Val 1013)
         = ''{\"api_key\":\"abc\",\"content\":{\"temperature\":21.57,\"humidity\":55.10,\"pressure\":1013.00}}''"
proof -
  have shape: "filter is_transport (DataSender_send d t h p e)
         = [HttpBegin (serverUrl d @ endpoint d),
            HttpAddHeader ''Content-Type'' ''application/json'',
            HttpPost (''{\"api_key\":\"'' @ apiKey d @ ''\",\"content\":{\"temperature\":'' @
                      String_float t 2 @ '',\"humidity\":'' @ String_float h 2 @
                      '',\"pressure\":'' @ String_float p 2 @ ''}}''),
            HttpEnd]"
    using assms by (simp add: DataSender_send_def payload_of_def Let_def)
  have ex: "payload_of (DataSender_new u ep ''abc'') (Val (21567 / 1000)) (Val (551 / 10)) (Val 1013)
         = ''{\"api_key\":\"abc\",\"content\":{\"temperature\":21.57,\"humidity\":55.10,\"pressure\":1013.00}}''"
    by (simp add: payload_of_def DataSender_new_def Let_def String_float_examples)
  show ?thesis using shape String_float_two_decimals ex by simp
qed

theorem send_payload_shape_witness:
  "filter is_transport
     (DataSender_send (DataSender_new ''http://example.org'' ''/api'' ''abc'')
        (Val (21567 / 1000)) (Val (551 / 10)) (Val 1013)
        \<lparr>link_up = True, post_code = 200, error_text = []\<rparr>)
   = [HttpBegin ''http://example.org/api'',
      HttpAddHeader ''Content-Type'' ''application/json'',
      HttpPost ''{\"api_key\":\"abc\",\"content\":{\"temperature\":21.57,\"humidity\":55.10,\"pressure\":1013.00}}'',
      HttpEnd]"
proof -
  have up: "link_up \<lparr>link_up = True, post_code = 200, error_text = []\<rparr>" by simp
  show ?thesis
    using send_payload_shape
      [OF up, of "DataSender_new ''http://example.org'' ''/api'' ''abc''"
        "Val (21567 / 1000)" "Val (551 / 10)" "Val 1013"]
    by (simp add: DataSender_new_def String_float_examples)
qed

section \<open>Properties of the main loop\<close>

lemma update_no_transport: "filter is_transport (fst (WiFiManager_update e m)) = []"
  using wait_loop_no_transport [of "millis (start_ms e)" "timeout m" "polls e"]
  by (auto simp: WiFiManager_update_def Let_def println_def split: prod.splits)

lemma wait_loop_no_skip: "skip_line \<notin> set (fst (wait_loop start tmo ps))"
  by (induction start tmo ps rule: wait_loop.induct)
    (auto simp: skip_line_def println_def split: prod.splits)

lemma update_no_skip: "skip_line \<notin> set (fst (WiFiManager_update e m))"
  using wait_loop_no_skip [of "millis (start_ms e)" "timeout m" "polls e"]
  by (auto simp: WiFiManager_update_def Let_def println_def skip_line_def split: prod.splits)

lemma sensor_update_no_transport:
  "filter is_transport (fst (BME280Sensor_update N t h praw s)) = []"
  by (simp add: BME280Sensor_update_def Let_def println_def)

lemma sensor_update_no_skip: "skip_line \<notin> set (fst (BME280Sensor_update N t h praw s))"
  by (simp add: BME280Sensor_update_def Let_def println_def skip_line_def)

lemma send_no_skip: "skip_line \<notin> set (DataSender_send d t h p e)"
  by (simp add: DataSender_send_def Let_def println_def skip_line_def)

text \<open>The cadence branch of a tick is entered.\<close>

lemma loop_due:
  assumes "snd (snd (WiFiManager_update (loop_wifi e) (wifiManager g)))"
    and "link_connected e"
    and "INTERVAL_MS cfg \<le> millis (loop_now_ms e) - lastSend g"
  shows "loop cfg e g =
     (let up = WiFiManager_update (loop_wifi e) (wifiManager g);
          su = BME280Sensor_update (SAMPLE_SIZE cfg) (temperature_read e) (humidity_read e)
                 (pressure_read e) (sensor g)
      in (fst up @ fst su @
            loop_report (sender g)
              (getAverageTemperature (SAMPLE_SIZE cfg) (snd su))
              (getAverageHumidity (SAMPLE_SIZE cfg) (snd su))
              (getAveragePressure (SAMPLE_SIZE cfg) (snd su)) (loop_send e),
          g\<lparr>wifiManager := fst (snd up), sensor := snd su,
            lastSend := millis (loop_now_ms e)\<rparr>, True))"
  using assms by (auto simp: loop_def Let_def split: prod.splits)

text \<open>The cadence branch of a tick is not entered.\<close>

lemma loop_not_due:
  assumes "\<not> (snd (snd (WiFiManager_update (loop_wifi e) (wifiManager g))) \<and>
             link_connected e \<and>
             INTERVAL_MS cfg \<le> millis (loop_now_ms e) - lastSend g)"
  shows "lastSend (fst (snd (loop cfg e g))) = lastSend g
       \<and> (fst (loop cfg e g) = fst (WiFiManager_update (loop_wifi e) (wifiManager g))
          \<or> fst (loop cfg e g)
             = fst (WiFiManager_update (loop_wifi e) (wifiManager g)) @
               fst (BME280Sensor_update (SAMPLE_SIZE cfg) (temperature_read e)
                      (humidity_read e) (pressure_read e) (sensor g)))"
  using assms by (auto simp: loop_def Let_def split: prod.splits)

lemma loop_not_due_quiet:
  assumes "\<not> (snd (snd (WiFiManager_update (loop_wifi e) (wifiManager g))) \<and>
             link_connected e \<and>
             INTERVAL_MS cfg \<le> millis (loop_now_ms e) - lastSend g)"
  shows "transport_calls (fst (loop cfg e g)) = 0 \<and> skip_line \<notin> set (fst (loop cfg e g))"
proof -
  let ?up = "fst (WiFiManager_update (loop_wifi e) (wifiManager g))"
  let ?su = "fst (BME280Sensor_update (SAMPLE_SIZE cfg) (temperature_read e)
                      (humidity_read e) (pressure_read e) (sensor g))"
  have ev: "fst (loop cfg e g) = ?up \<or> fst (loop cfg e g) = ?up @ ?su"
    using loop_not_due [OF assms] by blast
  have "transport_calls ?up = 0" "transport_calls (?up @ ?su) = 0"
    by (simp_all add: transport_calls_def update_no_transport sensor_update_no_transport)
  moreover have "skip_line \<notin> set ?up" "skip_line \<notin> set (?up @ ?su)"
    by (simp_all add: update_no_skip sensor_update_no_skip)
  ultimately show ?thesis using ev by auto
qed

text \<open>
  Claim C3. In a tick the cadence branch is entered exactly when \<open>update\<close> has returned,
  the link is connected and \<open>now - lastSend >= INTERVAL_MS\<close>. Otherwise the tick
  consists of the events of \<open>update\<close> and of the sensor ingest only, with no transport
  call and no skip line, and \<open>lastSend\<close> is unchanged. When the branch is entered,
  \<open>lastSend\<close> becomes \<open>now\<close> whatever the averages are and whatever the link and the
  transport answer during the send; and a following tick whose clock is less than
  \<open>INTERVAL_MS\<close> after that \<open>now\<close> makes no transport call, logs no skip and leaves
  \<open>lastSend\<close> as it is, whether the send was delivered, failed or skipped.
\<close>

theorem report_cadence:
  "(\<not> (snd (snd (WiFiManager_update (loop_wifi e) (wifiManager g))) \<and> link_connected e \<and>
        INTERVAL_MS cfg \<le> millis (loop_now_ms e) - lastSend g) \<longrightarrow>
      lastSend (fst (snd (loop cfg e g))) = lastSend g \<and>
      transport_calls (fst (loop cfg e g)) = 0 \<and>
      skip_line \<notin> set (fst (loop cfg e g)))
   \<and> (snd (snd (WiFiManager_update (loop_wifi e) (wifiManager g))) \<and> link_connected e \<and>
        INTERVAL_MS cfg \<le> millis (loop_now_ms e) - lastSend g \<longrightarrow>
      lastSend (fst (snd (loop cfg e g))) = millis (loop_now_ms e) \<and>
      (millis (loop_now_ms e2) - millis (loop_now_ms e) < INTERVAL_MS cfg \<longrightarrow>
         lastSend (fst (snd (loop cfg e2 (fst (snd (loop cfg e g)))))) = millis (loop_now_ms e) \<and>
         transport_calls (fst (loop cfg e2 (fst (snd (loop cfg e g))))) = 0 \<and>
         skip_line \<notin> set (fst (loop cfg e2 (fst (snd (loop cfg e g)))))))"
proof (intro conjI impI)
  assume nd: "\<not> (snd (snd (WiFiManager_update (loop_wifi e) (wifiManager g))) \<and>
                 link_connected e \<and>
                 INTERVAL_MS cfg \<le> millis (loop_now_ms e) - lastSend g)"
  show "lastSend (fst (snd (loop cfg e g))) = lastSend g"
    using loop_not_due [OF nd] by blast
  show "transport_calls (fst (loop cfg e g)) = 0"
    using loop_not_due_quiet [OF nd] by blast
  show "skip_line \<notin> set (fst (loop cfg e g))"
    using loop_not_due_quiet [OF nd] by blast
next
  assume due: "snd (snd (WiFiManager_update (loop_wifi e) (wifiManager g))) \<and>
               link_connected e \<and>
               INTERVAL_MS cfg \<le> millis (loop_now_ms e) - lastSend g"
  then have ls: "lastSend (fst (snd (loop cfg e g))) = millis (loop_now_ms e)"
    by (simp add: loop_due Let_def)
  show "lastSend (fst (snd (loop cfg e g))) = millis (loop_now_ms e)" by (rule ls)
  assume early: "millis (loop_now_ms e2) - millis (loop_now_ms e) < INTERVAL_MS cfg"
  let ?g' = "fst (snd (loop cfg e g))"
  have nd: "\<not> (snd (snd (WiFiManager_update (loop_wifi e2) (wifiManager ?g'))) \<and>
                 link_connected e2 \<and>
                 INTERVAL_MS cfg \<le> millis (loop_now_ms e2) - lastSend ?g')"
    using early ls by (simp add: not_le)
  show "lastSend (fst (snd (loop cfg e2 ?g'))) = millis (loop_now_ms e)"
    using loop_not_due [OF nd] ls by simp
  show "transport_calls (fst (loop cfg e2 ?g')) = 0"
    using loop_not_due_quiet [OF nd] by blast
  show "skip_line \<notin> set (fst (loop cfg e2 ?g'))"
    using loop_not_due_quiet [OF nd] by blast
qed

lemma example_tick_returns:
  "snd (snd (WiFiManager_update (loop_wifi (example_tick t tr hr pr code)) m))"
  by (simp add: example_tick_def linked_def WiFiManager_update_def)

theorem report_cadence_witness:
  "lastSend (fst (snd (loop example_config (example_tick 60000 NaN NaN NaN 200)
      (globals_new example_config)))) = 60000
   \<and> transport_calls (fst (loop example_config (example_tick 60100 (Val 21) (Val 55) (Val 101300) 200)
        (fst (snd (loop example_config (example_tick 60000 NaN NaN NaN 200)
           (globals_new example_config)))))) = 0
   \<and> lastSend (fst (snd (loop example_config (example_tick 100 (Val 21) (Val 55) (Val 101300) 200)
        (globals_new example_config)))) = 0"
proof -
  let ?g = "globals_new example_config"
  let ?tick = "example_tick 60000 NaN NaN NaN 200"
  let ?later = "example_tick 60100 (Val 21) (Val 55) (Val 101300) 200"
  let ?early = "example_tick 100 (Val 21) (Val 55) (Val 101300) 200"
  have ret: "snd (snd (WiFiManager_update (loop_wifi ?tick) (wifiManager ?g)))"
    and ret0: "snd (snd (WiFiManager_update (loop_wifi ?early) (wifiManager ?g)))"
    by (rule example_tick_returns)+
  have lk: "link_connected ?tick" by (simp add: example_tick_def)
  have due: "INTERVAL_MS example_config \<le> millis (loop_now_ms ?tick) - lastSend ?g"
    by (simp add: example_config_def example_tick_def globals_new_def millis_def)
  have early: "millis (loop_now_ms ?later) - millis (loop_now_ms ?tick) < INTERVAL_MS example_config"
    by (simp add: example_config_def example_tick_def millis_def)
  have nd0: "\<not> INTERVAL_MS example_config \<le> millis (loop_now_ms ?early) - lastSend ?g"
    by (simp add: example_config_def example_tick_def globals_new_def millis_def)
  have now: "millis (loop_now_ms ?tick) = 60000" by (simp add: example_tick_def millis_def)
  have ls0: "lastSend ?g = 0" by (simp add: globals_new_def)
  show ?thesis
    using report_cadence [of ?tick ?g example_config ?later] report_cadence [of ?early ?g example_config ?later]
      ret ret0 lk due early nd0 now ls0
    by simp
qed

section \<open>Skipping a report\<close>

lemma loop_report_skip:
  "isnan temp \<or> isnan hum \<or> isnan pres \<Longrightarrow> loop_report d temp hum pres se = [skip_line]"
  by (auto simp: loop_report_def skip_line_def)

lemma loop_report_send:
  "\<not> (isnan temp \<or> isnan hum \<or> isnan pres) \<Longrightarrow>
   loop_report d temp hum pres se = DataSender_send d temp hum pres se"
  by (simp add: loop_report_def)

lemma skip_line_no_transport: "transport_calls [skip_line] = 0"
  by (simp add: transport_calls_def skip_line_def println_def)

lemma transport_calls_append:
  "transport_calls (xs @ ys) = transport_calls xs + transport_calls ys"
  by (simp add: transport_calls_def)

lemma count_absent: "x \<notin> set xs \<Longrightarrow> count_list xs x = 0"
  by (induction xs) auto

lemma count_append: "count_list (xs @ ys) x = count_list xs x + count_list ys x"
  by (induction xs) auto

text \<open>
  Claim C6. When the cadence branch of a tick is entered and one of the three averages
  is NaN, the tick makes no transport call and writes the skip line exactly once; this
  holds for the guard itself whichever of the three values is NaN, also when the other
  two are valid. A tick makes a transport call only when all three averages are valid,
  and only then is \<open>send\<close> called.
\<close>

theorem skip_when_average_missing:
  "(isnan temp \<or> isnan hum \<or> isnan pres \<longrightarrow>
      loop_report d temp hum pres se = [skip_line] \<and>
      transport_calls (loop_report d temp hum pres se) = 0 \<and>
      count_list (loop_report d temp hum pres se) skip_line = 1)
   \<and> (\<not> (isnan temp \<or> isnan hum \<or> isnan pres) \<longrightarrow>
      loop_report d temp hum pres se = DataSender_send d temp hum pres se \<and>
      skip_line \<notin> set (loop_report d temp hum pres se))
   \<and> (snd (snd (WiFiManager_update (loop_wifi e) (wifiManager g))) \<and> link_connected e \<and>
       INTERVAL_MS cfg \<le> millis (loop_now_ms e) - lastSend g \<and>
       (isnan (getAverageTemperature (SAMPLE_SIZE cfg) (sensor (fst (snd (loop cfg e g))))) \<or>
        isnan (getAverageHumidity (SAMPLE_SIZE cfg) (sensor (fst (snd (loop cfg e g))))) \<or>
        isnan (getAveragePressure (SAMPLE_SIZE cfg) (sensor (fst (snd (loop cfg e g)))))) \<longrightarrow>
      transport_calls (fst (loop cfg e g)) = 0 \<and>
      count_list (fst (loop cfg e g)) skip_line = 1)
   \<and> (0 < transport_calls (fst (loop cfg e g)) \<longrightarrow>
      \<not> isnan (getAverageTemperature (SAMPLE_SIZE cfg) (sensor (fst (snd (loop cfg e g))))) \<and>
      \<not> isnan (getAverageHumidity (SAMPLE_SIZE cfg) (sensor (fst (snd (loop cfg e g))))) \<and>
      \<not> isnan (getAveragePressure (SAMPLE_SIZE cfg) (sensor (fst (snd (loop cfg e g))))))"
proof -
  let ?up = "fst (WiFiManager_update (loop_wifi e) (wifiManager g))"
  let ?su = "BME280Sensor_update (SAMPLE_SIZE cfg) (temperature_read e) (humidity_read e)
               (pressure_read e) (sensor g)"
  let ?due = "snd (snd (WiFiManager_update (loop_wifi e) (wifiManager g))) \<and> link_connected e \<and>
              INTERVAL_MS cfg \<le> millis (loop_now_ms e) - lastSend g"
  let ?T = "getAverageTemperature (SAMPLE_SIZE cfg) (sensor (fst (snd (loop cfg e g))))"
  let ?H = "getAverageHumidity (SAMPLE_SIZE cfg) (sensor (fst (snd (loop cfg e g))))"
  let ?P = "getAveragePressure (SAMPLE_SIZE cfg) (sensor (fst (snd (loop cfg e g))))"
  have guard1: "loop_report d temp hum pres se = [skip_line] \<and>
      transport_calls (loop_report d temp hum pres se) = 0 \<and>
      count_list (loop_report d temp hum pres se) skip_line = 1"
    if "isnan temp \<or> isnan hum \<or> isnan pres"
    using loop_report_skip [OF that] skip_line_no_transport by simp
  have guard2: "loop_report d temp hum pres se = DataSender_send d temp hum pres se \<and>
      skip_line \<notin> set (loop_report d temp hum pres se)"
    if "\<not> (isnan temp \<or> isnan hum \<or> isnan pres)"
    using loop_report_send [OF that] send_no_skip by simp
  have sn: "sensor (fst (snd (loop cfg e g))) = snd ?su" if ?due
    using that by (simp add: loop_due Let_def)
  have evs: "fst (loop cfg e g) = ?up @ fst ?su @ loop_report (sender g) ?T ?H ?P (loop_send e)"
    if ?due
    using that sn [OF that] by (simp add: loop_due Let_def)
  have quiet: "transport_calls (?up @ fst ?su) = 0" "count_list (?up @ fst ?su) skip_line = 0"
    by (simp_all add: transport_calls_def update_no_transport sensor_update_no_transport
        count_append count_absent update_no_skip sensor_update_no_skip)
  have tick1: "transport_calls (fst (loop cfg e g)) = 0 \<and>
               count_list (fst (loop cfg e g)) skip_line = 1"
    if due: ?due and nan: "isnan ?T \<or> isnan ?H \<or> isnan ?P"
  proof -
    have "fst (loop cfg e g) = (?up @ fst ?su) @ [skip_line]"
      using evs [OF due] loop_report_skip [OF nan] by simp
    then show ?thesis
      using quiet skip_line_no_transport
      by (simp only: transport_calls_append count_append) simp
  qed
  have tick2: "\<not> isnan ?T \<and> \<not> isnan ?H \<and> \<not> isnan ?P"
    if pos: "0 < transport_calls (fst (loop cfg e g))"
  proof (rule ccontr)
    assume "\<not> (\<not> isnan ?T \<and> \<not> isnan ?H \<and> \<not> isnan ?P)"
    then have nan: "isnan ?T \<or> isnan ?H \<or> isnan ?P" by blast
    have due: ?due using pos loop_not_due_quiet [of e g cfg] by force
    show False using tick1 [OF due nan] pos by simp
  qed
  show ?thesis using guard1 guard2 tick1 tick2 by blast
qed

theorem skip_when_average_missing_witness:
  "loop_report (DataSender_new ''http://example.org'' ''/api'' ''abc'') (Val 21) NaN (Val 1013)
     \<lparr>link_up = True, post_code = 200, error_text = []\<rparr> = [skip_line]
   \<and> transport_calls (fst (loop example_config (example_tick 60000 (Val 21) NaN (Val 101300) 200)
        (globals_new example_config))) = 0
   \<and> count_list (fst (loop example_config (example_tick 60000 (Val 21) NaN (Val 101300) 200)
        (globals_new example_config))) skip_line = 1"
proof -
  let ?g = "globals_new example_config"
  let ?e = "example_tick 60000 (Val 21) NaN (Val 101300) 200"
  have nan: "isnan (Val 21) \<or> isnan NaN \<or> isnan (Val 1013)" by simp
  have ret: "snd (snd (WiFiManager_update (loop_wifi ?e) (wifiManager ?g)))"
    by (rule example_tick_returns)
  have lk: "link_connected ?e" by (simp add: example_tick_def)
  have due: "INTERVAL_MS example_config \<le> millis (loop_now_ms ?e) - lastSend ?g"
    by (simp add: example_config_def example_tick_def globals_new_def millis_def)
  have sn: "sensor (fst (snd (loop example_config ?e ?g))) = BME280Sensor_new 3"
    using ret lk due
    by (simp add: loop_due Let_def)
      (simp add: example_tick_def example_config_def globals_new_def BME280Sensor_update_def)
  have avg: "isnan (getAverageTemperature (SAMPLE_SIZE example_config)
                      (sensor (fst (snd (loop example_config ?e ?g)))))"
    unfolding sn
    by (simp add: getAverageTemperature_def average_def count_of_def BME280Sensor_new_def)
  show ?thesis
    using skip_when_average_missing
      [of "Val 21" NaN "Val 1013" "DataSender_new ''http://example.org'' ''/api'' ''abc''"
        "\<lparr>link_up = True, post_code = 200, error_text = []\<rparr>" ?e ?g example_config]
      nan ret lk due avg
    by simp
qed

end
